theory Spec2Isabelle
  imports Complex_Main
begin

section \<open>backup-folder: values of the program\<close>

text \<open>
  The development follows \<^verbatim>\<open>index.js\<close>. A path is kept as the list of its components:
  \<^verbatim>\<open>path.join(dir, name)\<close> appends the one component an entry of a directory has, and
  \<^verbatim>\<open>path.relative(source, p)\<close> drops the components of \<^verbatim>\<open>source\<close> from a path below it.
  A thrown value is an Error object with its \<^verbatim>\<open>code\<close> (absent on most errors) and its
  \<^verbatim>\<open>message\<close>. The functions embedded are \<^verbatim>\<open>withRetries\<close>, \<^verbatim>\<open>walk\<close> and \<^verbatim>\<open>main\<close> with its
  task function \<^verbatim>\<open>upload\<close>; the reading of the command line before \<^verbatim>\<open>main\<close> gives the
  configuration a run starts with. The file system, the clock, the bucket and the functions
  of the JavaScript runtime are what the run is given.
\<close>

type_synonym path = "string list"

datatype error = Error (code: "string option") (message: string)

text \<open>
  What the console receives, one value per call: \<^verbatim>\<open>logError\<close> writes an \<open>Err\<close> line, the
  others are the \<^verbatim>\<open>console.log\<close> calls of \<^verbatim>\<open>main\<close> with the values they interpolate (colours
  and the formatting of sizes and durations are left out).
\<close>

datatype line =
    Err string
  | Invalid_metadata path
  | Cant_read_metadata path
  | Done_files nat
  | Waiting
  | All_uploaded
  | File_line nat string path nat
  | Summary string nat nat nat nat
  | Done_in int

text \<open>The lines of line 191, one per file the task function has gone through.\<close>

fun is_File_line :: "line \<Rightarrow> bool" where
  "is_File_line (File_line n label destination sz) = True"
| "is_File_line l = False"

section \<open>withRetries\<close>

text \<open>
  The wrapped operation \<open>fn\<close> is a transformer of the state it works on; it either throws
  (\<open>Inl\<close>) or returns (\<open>Inr\<close>). The loop is the \<^verbatim>\<open>while\<close> of the source with its two
  variables \<open>actualRetries\<close> and \<open>lastError\<close> (\<open>None\<close> is \<^verbatim>\<open>null\<close>). Two more components
  are carried along to observe the loop: the number of calls of \<open>fn\<close> made so far, and the
  messages passed to \<^verbatim>\<open>logError\<close>.
\<close>

record ('a, 's) retried =
  result :: "error option + 'a"
  final :: 's
  attempts :: nat
  logged :: "string list"

function withRetries_loop ::
  "('s \<Rightarrow> (error + 'a) \<times> 's) \<Rightarrow> int \<Rightarrow> int \<Rightarrow> error option \<Rightarrow> 's \<Rightarrow> nat \<Rightarrow> string list
     \<Rightarrow> ('a, 's) retried" where
  "withRetries_loop fn retries actualRetries lastError s calls msgs =
     (if actualRetries < retries then
        (case fn s of
           (Inr v, s') \<Rightarrow>
             \<lparr>result = Inr v, final = s', attempts = Suc calls, logged = msgs\<rparr>
         | (Inl e, s') \<Rightarrow>
             withRetries_loop fn retries (actualRetries + 1) (Some e) s' (Suc calls)
               (msgs @ [message e]))
      else \<lparr>result = Inl lastError, final = s, attempts = calls, logged = msgs\<rparr>)"
  by pat_completeness auto
termination
  by (relation "measure (\<lambda>(fn, retries, actualRetries, lastError, s, calls, msgs).
        nat (retries - actualRetries))") auto

text \<open>\<^verbatim>\<open>withRetries(fn, {retries = 3} = {})\<close>: without the option the budget is 3.\<close>

definition withRetries ::
  "('s \<Rightarrow> (error + 'a) \<times> 's) \<Rightarrow> int option \<Rightarrow> 's \<Rightarrow> ('a, 's) retried" where
  "withRetries fn opts s =
     (let retries = (case opts of None \<Rightarrow> 3 | Some r \<Rightarrow> r)
      in withRetries_loop fn retries 0 None s 0 [])"

text \<open>
  The outcomes of the first \<open>n\<close> consecutive calls of an operation from a state, used to say
  "fails \<open>k\<close> times and then succeeds".
\<close>

fun outcomes :: "('s \<Rightarrow> (error + 'a) \<times> 's) \<Rightarrow> nat \<Rightarrow> 's \<Rightarrow> (error + 'a) list" where
  "outcomes fn 0 s = []"
| "outcomes fn (Suc n) s = (case fn s of (r, s') \<Rightarrow> r # outcomes fn n s')"

fun after :: "('s \<Rightarrow> (error + 'a) \<times> 's) \<Rightarrow> nat \<Rightarrow> 's \<Rightarrow> 's" where
  "after fn 0 s = s"
| "after fn (Suc n) s = after fn n (snd (fn s))"

section \<open>The sidecar's JSON and the runtime\<close>

text \<open>
  \<^verbatim>\<open>JSON.parse\<close>, \<^verbatim>\<open>JSON.stringify\<close> and \<^verbatim>\<open>Date\<close> belong to the JavaScript runtime. The text of
  the sidecar is kept as what \<^verbatim>\<open>JSON.parse\<close> makes of it; an object is the list of its
  properties. The runtime's functions that the program's result depends on are parameters:
  \<^verbatim>\<open>Date.parse\<close> (\<open>None\<close> is NaN), \<^verbatim>\<open>Date.prototype.toISOString\<close> (which \<^verbatim>\<open>JSON.stringify\<close>
  applies to a Date), the conversion of an array or object to a string, and the text
  \<^verbatim>\<open>JSON.stringify(_, null, '\t')\<close> gives for a value, of which only the length is used.
\<close>

datatype json =
    JNull
  | JBool bool
  | JNum rat
  | JStr string
  | JArr "json list"
  | JObj "(string \<times> json) list"

record runtime =
  Date_parse :: "string \<Rightarrow> int option"
  toISOString :: "int \<Rightarrow> string"
  ToString :: "json \<Rightarrow> string"
  JSON_stringify :: "json \<Rightarrow> string"

fun truthy :: "json \<Rightarrow> bool" where
  "truthy JNull = False"
| "truthy (JBool b) = b"
| "truthy (JNum n) = (n \<noteq> 0)"
| "truthy (JStr s) = (s \<noteq> [])"
| "truthy (JArr _) = True"
| "truthy (JObj _) = True"

definition TypeError_null :: error where
  "TypeError_null = Error None ''Cannot read properties of null''"

text \<open>\<^verbatim>\<open>v.k\<close>: a TypeError on \<^verbatim>\<open>null\<close>, \<^verbatim>\<open>undefined\<close> (\<open>None\<close>) where the value has no such property.\<close>

fun get_prop :: "json \<Rightarrow> string \<Rightarrow> error + json option" where
  "get_prop JNull k = Inl TypeError_null"
| "get_prop (JObj kvs) k = Inr (map_of kvs k)"
| "get_prop _ k = Inr None"

text \<open>\<^verbatim>\<open>delete v.k\<close>, on a value that is not \<^verbatim>\<open>null\<close>.\<close>

fun delete_prop :: "json \<Rightarrow> string \<Rightarrow> json" where
  "delete_prop (JObj kvs) k = JObj (filter (\<lambda>kv. fst kv \<noteq> k) kvs)"
| "delete_prop v k = v"

definition TimeClip :: "rat \<Rightarrow> int option" where
  "TimeClip n =
     (if \<bar>n\<bar> > 8640000000000000 then None
      else Some (if 0 \<le> n then \<lfloor>n\<rfloor> else \<lceil>n\<rceil>))"

text \<open>\<^verbatim>\<open>new Date(v).getTime()\<close>; \<open>None\<close> is NaN.\<close>

fun new_Date_getTime :: "runtime \<Rightarrow> json \<Rightarrow> int option" where
  "new_Date_getTime rt (JStr s) = Date_parse rt s"
| "new_Date_getTime rt (JNum n) = TimeClip n"
| "new_Date_getTime rt (JBool b) = Some (if b then 1 else 0)"
| "new_Date_getTime rt JNull = Some 0"
| "new_Date_getTime rt v = Date_parse rt (ToString rt v)"

text \<open>
  Line 174: \<^verbatim>\<open>new Date(metadata.uploadStartTime || 0).getTime()\<close>, on the metadata that
  passed the loading (an object, so the property read does not throw).
\<close>

definition lastUploadTimeMs :: "runtime \<Rightarrow> json \<Rightarrow> int option" where
  "lastUploadTimeMs rt metadata =
     new_Date_getTime rt
       (case get_prop metadata ''uploadStartTime'' of
          Inr (Some v) \<Rightarrow> if truthy v then v else JNum 0
        | _ \<Rightarrow> JNum 0)"

section \<open>The directory walker\<close>

text \<open>
  A file object has a path and a size; the ones the walker yields are \<^verbatim>\<open>lstat\<close> results and
  have a modification time too, the one \<^verbatim>\<open>main\<close> builds for the sidecar has none
  (\<^verbatim>\<open>undefined\<close>). The source directory is a tree of entries in the order \<^verbatim>\<open>opendir\<close> gives
  them: a regular file with what \<^verbatim>\<open>lstat\<close> returns for it (size and \<^verbatim>\<open>mtimeMs\<close>, a fractional
  number of milliseconds) or with the error \<^verbatim>\<open>lstat\<close> throws, a directory with its entries or
  with the error \<^verbatim>\<open>opendir\<close> throws, or something else (a symbolic link, a socket).
\<close>

record fileobj =
  path :: path
  size_f :: nat
  mtimeMs :: "rat option"

datatype node =
    File nat rat
  | Lstat_fails error
  | Dir "(string \<times> node) list"
  | Opendir_fails error
  | Other

fun isDirectory :: "node \<Rightarrow> bool" where
  "isDirectory (Dir _) = True"
| "isDirectory (Opendir_fails _) = True"
| "isDirectory _ = False"

definition ENOTDIR :: error where
  "ENOTDIR = Error (Some ''ENOTDIR'') ''ENOTDIR: not a directory, opendir''"

text \<open>
  The generator \<^verbatim>\<open>walk(dir)\<close>: the files it yields, in order, and the error that ends the
  sequence if one is thrown.
\<close>

fun walk :: "path \<Rightarrow> node \<Rightarrow> fileobj list \<times> error option"
  and walk_entries :: "path \<Rightarrow> (string \<times> node) list \<Rightarrow> fileobj list \<times> error option" where
  "walk dir (Dir ds) = walk_entries dir ds"
| "walk dir (Opendir_fails e) = ([], Some e)"
| "walk dir (File sz m) = ([], Some ENOTDIR)"
| "walk dir (Lstat_fails e) = ([], Some ENOTDIR)"
| "walk dir Other = ([], Some ENOTDIR)"
| "walk_entries dir [] = ([], None)"
| "walk_entries dir ((name, Dir ds) # rest) =
     (case walk (dir @ [name]) (Dir ds) of
        (fs, Some e) \<Rightarrow> (fs, Some e)
      | (fs, None) \<Rightarrow> (case walk_entries dir rest of (gs, r) \<Rightarrow> (fs @ gs, r)))"
| "walk_entries dir ((name, Opendir_fails e) # rest) =
     (case walk (dir @ [name]) (Opendir_fails e) of
        (fs, Some e') \<Rightarrow> (fs, Some e')
      | (fs, None) \<Rightarrow> (case walk_entries dir rest of (gs, r) \<Rightarrow> (fs @ gs, r)))"
| "walk_entries dir ((name, File sz m) # rest) =
     (case walk_entries dir rest of
        (gs, r) \<Rightarrow> (\<lparr>path = dir @ [name], size_f = sz, mtimeMs = Some m\<rparr> # gs, r))"
| "walk_entries dir ((name, Lstat_fails e) # rest) = ([], Some e)"
| "walk_entries dir ((name, Other) # rest) = walk_entries dir rest"

text \<open>A tree in which the entries of every directory have different names, as on a disk.\<close>

fun names_ok :: "node \<Rightarrow> bool"
  and entries_ok :: "(string \<times> node) list \<Rightarrow> bool" where
  "names_ok (Dir ds) = (distinct (map fst ds) \<and> entries_ok ds)"
| "names_ok (File sz m) = True"
| "names_ok (Lstat_fails e) = True"
| "names_ok (Opendir_fails e) = True"
| "names_ok Other = True"
| "entries_ok [] = True"
| "entries_ok ((name, n) # rest) = (names_ok n \<and> entries_ok rest)"

section \<open>The run\<close>

record config =
  source :: path
  destinationDir :: path
  onlyPrint :: bool
  quiet :: bool
  isWinows :: bool

text \<open>
  What \<^verbatim>\<open>fs.readFile\<close> and \<^verbatim>\<open>JSON.parse\<close> make of the sidecar: the read throws (with code
  \<^verbatim>\<open>ENOENT\<close> when there is no such file), or the text is not JSON and the parse throws a
  SyntaxError with some message, or the text parses.
\<close>

datatype sidecar_file =
    Read_fails error
  | Parse_fails string
  | Parses json

text \<open>
  The state of a run: the disk (the source tree as the walker finds it, the sidecar, and the
  error a write of the sidecar would meet), the bucket (its state, and the calls of
  \<^verbatim>\<open>storageBucket.upload\<close> made, with local path and destination), every file \<^verbatim>\<open>upload\<close> was
  called with, the console, and the counters of \<^verbatim>\<open>main\<close>. The calls of \<^verbatim>\<open>upload\<close> and the
  writes of the sidecar are also kept as events, in the order in which they happen.
\<close>

datatype event = Submitted fileobj | Wrote json

record 'st state =
  tree :: node
  sidecar :: sidecar_file
  writeFile_fails :: "error option"
  store :: 'st
  puts :: "(path \<times> path) list"
  submitted :: "fileobj list"
  events :: "event list"
  out :: "line list"
  totalFiles :: nat
  totalSize :: nat
  totalUploadedFiles :: nat
  totalUploadedSize :: nat
  fileNum :: nat
  i_count :: nat

type_synonym 'st bucket = "'st \<Rightarrow> path \<Rightarrow> path \<Rightarrow> (error + unit) \<times> 'st"

text \<open>
  What a run reads from its surroundings: the clock at line 175 and at line 226, and
  \<^verbatim>\<open>queue.size\<close> at line 217, which decides only whether lines 219 and 223 are printed.
\<close>

record readings =
  now_start :: int
  now_end :: int
  queue_size :: nat

text \<open>How a run ends: the process exits with a code.\<close>

datatype outcome = Exit nat

definition metadataFilePath :: "config \<Rightarrow> path" where
  "metadataFilePath cfg = source cfg @ [''.backup-folder.json'']"

definition console_log :: "line \<Rightarrow> 'st state \<Rightarrow> 'st state" where
  "console_log l s = s\<lparr>out := out s @ [l]\<rparr>"

definition logError :: "string \<Rightarrow> 'st state \<Rightarrow> 'st state" where
  "logError msg s = console_log (Err msg) s"

subsection \<open>Loading the sidecar (lines 153 to 174)\<close>

text \<open>
  \<open>Inl\<close> is \<^verbatim>\<open>process.exit(1)\<close>, with the state the process leaves; \<open>Inr\<close> is the value of
  \<^verbatim>\<open>metadata\<close> with which the run goes on. The handler of the \<^verbatim>\<open>try\<close> is \<open>load_catch\<close>: of
  the three places that throw into it only \<^verbatim>\<open>readFile\<close> gives an error with a code, and then
  \<^verbatim>\<open>metadata\<close> still is the empty object of line 154.
\<close>

definition load_catch :: "config \<Rightarrow> error \<Rightarrow> 'st state \<Rightarrow> 'st state + json" where
  "load_catch cfg e s =
     (if code e = Some ''ENOENT'' then Inr (JObj [])
      else Inl (logError (message e) (console_log (Cant_read_metadata (metadataFilePath cfg)) s)))"

definition load :: "config \<Rightarrow> 'st state \<Rightarrow> 'st state + json" where
  "load cfg s =
     (case sidecar s of
        Read_fails e \<Rightarrow> load_catch cfg e s
      | Parse_fails msg \<Rightarrow> load_catch cfg (Error None msg) s
      | Parses metadata \<Rightarrow>
          (case get_prop metadata ''uploadStartTime'' of
             Inl e \<Rightarrow> load_catch cfg e s
           | Inr v \<Rightarrow>
               if \<not> (case v of None \<Rightarrow> False | Some x \<Rightarrow> truthy x)
               then Inl (console_log (Invalid_metadata (metadataFilePath cfg)) s)
               else Inr metadata))"

subsection \<open>The upload task (lines 177 to 195)\<close>

text \<open>
  The task function of lines 180 to 195, \<open>upload_task\<close>, throws (\<open>Inl\<close>) or returns. The queue
  is the library \<^verbatim>\<open>async-parallel-queue\<close>, which is not among the sources. \<^verbatim>\<open>upload\<close> is the
  task function wrapped by \<^verbatim>\<open>queue.fn\<close> with \<^verbatim>\<open>ignoreResult: true\<close>, and \<^verbatim>\<open>main\<close> calls it without
  waiting: the queue starts the task when it is submitted (it holds up to 100 at a time),
  and what the task returns or throws is handed to nobody, so that a task that throws ends
  alone and the run goes on. The model lets each task run to its end when it is submitted,
  one of the orders in which the program can run and the order of a print-only run, whose
  tasks never wait. In this order no task is left when the program waits for the queue to
  be idle.
\<close>

definition uploadedLabel :: "config \<Rightarrow> string" where
  "uploadedLabel cfg = (if onlyPrint cfg then ''will upload'' else ''uploaded'')"

definition storageBucket_upload ::
  "'st bucket \<Rightarrow> path \<Rightarrow> path \<Rightarrow> 'st state \<Rightarrow> (error + unit) \<times> 'st state" where
  "storageBucket_upload bucket local dest s =
     (case bucket (store s) local dest of
        (r, st') \<Rightarrow> (r, s\<lparr>store := st', puts := puts s @ [(local, dest)]\<rparr>))"

text \<open>On Windows line 183 assigns to a \<^verbatim>\<open>const\<close>, which throws.\<close>

definition TypeError_const :: error where
  "TypeError_const = Error None ''Assignment to constant variable.''"

definition upload_task ::
  "config \<Rightarrow> 'st bucket \<Rightarrow> fileobj \<Rightarrow> 'st state \<Rightarrow> (error option + unit) \<times> 'st state" where
  "upload_task cfg bucket f s =
     (let destination = drop (length (source cfg)) (path f) in
      if isWinows cfg then (Inl (Some TypeError_const), s)
      else
        case (if \<not> onlyPrint cfg then
                (let r = withRetries
                           (storageBucket_upload bucket (path f) (destinationDir cfg @ destination))
                           None s
                 in (result r, (final r)\<lparr>out := out (final r) @ map Err (logged r)\<rparr>))
              else (Inr (), s)) of
          (Inl e, s1) \<Rightarrow> (Inl e, s1)
        | (Inr _, s1) \<Rightarrow>
            (let s2 = (if \<not> quiet cfg
                       then console_log
                              (File_line (fileNum s1 + 1) (uploadedLabel cfg) destination (size_f f))
                              (s1\<lparr>fileNum := fileNum s1 + 1\<rparr>)
                       else s1)
             in (Inr (),
                 s2\<lparr>totalUploadedFiles := totalUploadedFiles s2 + 1,
                    totalUploadedSize := totalUploadedSize s2 + size_f f\<rparr>)))"

definition upload :: "config \<Rightarrow> 'st bucket \<Rightarrow> fileobj \<Rightarrow> 'st state \<Rightarrow> 'st state" where
  "upload cfg bucket f s =
     snd (upload_task cfg bucket f
            (s\<lparr>submitted := submitted s @ [f], events := events s @ [Submitted f]\<rparr>))"

definition waitIdle :: "'st state \<Rightarrow> 'st state" where
  "waitIdle s = s"

subsection \<open>The scan (lines 197 to 214)\<close>

text \<open>\<^verbatim>\<open>a >= b\<close> on numbers: false when a side is \<^verbatim>\<open>undefined\<close> or NaN.\<close>

definition ge_js :: "rat option \<Rightarrow> int option \<Rightarrow> bool" where
  "ge_js a b = (case (a, b) of (Some x, Some y) \<Rightarrow> of_int y \<le> x | _ \<Rightarrow> False)"

definition scan_step ::
  "config \<Rightarrow> 'st bucket \<Rightarrow> int option \<Rightarrow> fileobj \<Rightarrow> 'st state \<Rightarrow> 'st state" where
  "scan_step cfg bucket lastMs f s =
     (if path f = metadataFilePath cfg then s
      else
        (let s1 = s\<lparr>totalFiles := totalFiles s + 1, totalSize := totalSize s + size_f f\<rparr>;
             s2 = (if ge_js (mtimeMs f) lastMs then upload cfg bucket f s1 else s1);
             s3 = s2\<lparr>i_count := i_count s2 + 1\<rparr>
         in if i_count s3 mod 10000 = 0 then console_log (Done_files (i_count s3)) s3 else s3))"

definition scan ::
  "config \<Rightarrow> 'st bucket \<Rightarrow> int option \<Rightarrow> fileobj list \<Rightarrow> 'st state \<Rightarrow> 'st state" where
  "scan cfg bucket lastMs files s = foldl (\<lambda>s f. scan_step cfg bucket lastMs f s) s files"

subsection \<open>Writing and uploading the sidecar (lines 226 to 254)\<close>

definition new_metadata :: "runtime \<Rightarrow> int \<Rightarrow> int \<Rightarrow> json \<Rightarrow> json" where
  "new_metadata rt uploadStartTime uploadEndTime metadata =
     JObj [(''uploadStartTime'', JStr (toISOString rt uploadStartTime)),
           (''uploadEndTime'', JStr (toISOString rt uploadEndTime)),
           (''lastMetaData'', delete_prop metadata ''lastMetaData'')]"

definition writeFile :: "json \<Rightarrow> 'st state \<Rightarrow> error + 'st state" where
  "writeFile j s =
     (case writeFile_fails s of
        Some e \<Rightarrow> Inl e
      | None \<Rightarrow> Inr (s\<lparr>sidecar := Parses j, events := events s @ [Wrote j]\<rparr>))"

definition commit ::
  "config \<Rightarrow> runtime \<Rightarrow> 'st bucket \<Rightarrow> readings \<Rightarrow> json \<Rightarrow> 'st state \<Rightarrow> outcome \<times> 'st state" where
  "commit cfg rt bucket rd metadata s =
     (let uploadStartTime = now_start rd;
          uploadEndTime = now_end rd;
          metadata' = new_metadata rt uploadStartTime uploadEndTime metadata;
          metadataFileContents = JSON_stringify rt metadata'
      in case (if \<not> onlyPrint cfg then writeFile metadata' s else Inr s) of
           Inl e \<Rightarrow> (Exit 1, logError (message e) s)
         | Inr s1 \<Rightarrow>
             (let s2 = s1\<lparr>totalFiles := totalFiles s1 + 1,
                         totalSize := totalSize s1 + length metadataFileContents\<rparr>;
                  s3 = upload cfg bucket
                         \<lparr>path = metadataFilePath cfg,
                          size_f = length metadataFileContents, mtimeMs = None\<rparr> s2;
                  s4 = waitIdle s3
              in (Exit 0,
                  console_log (Done_in (uploadEndTime - uploadStartTime))
                    (console_log
                       (Summary (uploadedLabel cfg) (totalUploadedFiles s4) (totalFiles s4)
                          (totalUploadedSize s4) (totalSize s4))
                       s4))))"

subsection \<open>main\<close>

text \<open>
  A run is a new process: it starts with an empty queue and console and with its counters
  at zero, on the disk and the bucket it finds.
\<close>

definition fresh :: "'st state \<Rightarrow> 'st state" where
  "fresh s = s\<lparr>puts := [], submitted := [], events := [], out := [], totalFiles := 0,
               totalSize := 0, totalUploadedFiles := 0, totalUploadedSize := 0, fileNum := 0,
               i_count := 0\<rparr>"

definition main ::
  "config \<Rightarrow> runtime \<Rightarrow> 'st bucket \<Rightarrow> readings \<Rightarrow> 'st state \<Rightarrow> outcome \<times> 'st state" where
  "main cfg rt bucket rd s00 =
     (let s0 = fresh s00 in
      case load cfg s0 of
        Inl s \<Rightarrow> (Exit 1, s)
      | Inr metadata \<Rightarrow>
          (let lastMs = lastUploadTimeMs rt metadata in
           case walk (source cfg) (tree s0) of
             (files, thrown) \<Rightarrow>
               (let s1 = scan cfg bucket lastMs files s0 in
                case thrown of
                  Some e \<Rightarrow> (Exit 1, logError (message e) s1)
                | None \<Rightarrow>
                    (let filesUploaded = (queue_size rd \<ge> 1);
                         s2 = (if filesUploaded then console_log Waiting s1 else s1);
                         s3 = waitIdle s2
                     in commit cfg rt bucket rd metadata
                          (if filesUploaded then console_log All_uploaded s3 else s3)))))"

section \<open>Concrete inputs\<close>

text \<open>Two operations on a counter of calls: one fails twice and then succeeds, one always fails.\<close>

definition flaky_op :: "nat \<Rightarrow> (error + unit) \<times> nat" where
  "flaky_op n = (if n < 2 then Inl (Error None ''unavailable'') else Inr (), Suc n)"

definition failing_op :: "nat \<Rightarrow> (error + unit) \<times> nat" where
  "failing_op n = (Inl (Error None ''unavailable''), Suc n)"

text \<open>
  A fragment of the runtime: the ISO strings of six instants of the first seconds after the
  epoch, and \<^verbatim>\<open>Date.parse\<close> on them. The text of \<^verbatim>\<open>JSON.stringify\<close> is a stand-in; only the
  size written on the sidecar's task depends on it.
\<close>

definition iso_table :: "(int \<times> string) list" where
  "iso_table =
     [(1000, ''1970-01-01T00:00:01.000Z''), (2000, ''1970-01-01T00:00:02.000Z''),
      (3000, ''1970-01-01T00:00:03.000Z''), (4000, ''1970-01-01T00:00:04.000Z''),
      (5000, ''1970-01-01T00:00:05.000Z''), (6000, ''1970-01-01T00:00:06.000Z'')]"

definition rt0 :: runtime where
  "rt0 = \<lparr>Date_parse = map_of (map (\<lambda>(t, s). (s, t)) iso_table),
          toISOString = (\<lambda>t. case map_of iso_table t of Some s \<Rightarrow> s | None \<Rightarrow> []),
          ToString = (\<lambda>v. ''[object Object]''),
          JSON_stringify = (\<lambda>v. ''{}'')\<rparr>"

text \<open>A bucket that accepts every upload and counts them.\<close>

definition bucket_ok :: "nat bucket" where
  "bucket_ok st local dest = (Inr (), Suc st)"

definition cfg0 :: config where
  "cfg0 = \<lparr>source = [''home'', ''photos''], destinationDir = [''backup''], onlyPrint = False,
           quiet = False, isWinows = False\<rparr>"

definition cfg_print :: config where
  "cfg_print = cfg0\<lparr>onlyPrint := True\<rparr>"

definition ENOENT :: error where
  "ENOENT = Error (Some ''ENOENT'') ''ENOENT: no such file or directory, open''"

text \<open>
  A source directory without a sidecar: a file last modified before the epoch, and three
  files modified between 1000 and 2000 ms, one of them called like the sidecar in a
  subdirectory.
\<close>

definition tree0 :: node where
  "tree0 = Dir [(''old.txt'', File 10 (- 1)), (''new.txt'', File 20 1500),
                (''sub'', Dir [(''.backup-folder.json'', File 5 1200),
                               (''b.txt'', File 7 (3601 / 2))])]"

definition disk0 :: "nat state" where
  "disk0 = \<lparr>tree = tree0, sidecar = Read_fails ENOENT, writeFile_fails = None, store = 0,
            puts = [], submitted = [], events = [], out = [], totalFiles = 0, totalSize = 0,
            totalUploadedFiles = 0, totalUploadedSize = 0, fileNum = 0, i_count = 0\<rparr>"

definition files0 :: "fileobj list" where
  "files0 =
     [\<lparr>path = [''home'', ''photos'', ''old.txt''], size_f = 10, mtimeMs = Some (- 1)\<rparr>,
      \<lparr>path = [''home'', ''photos'', ''new.txt''], size_f = 20, mtimeMs = Some 1500\<rparr>,
      \<lparr>path = [''home'', ''photos'', ''sub'', ''.backup-folder.json''], size_f = 5,
        mtimeMs = Some 1200\<rparr>,
      \<lparr>path = [''home'', ''photos'', ''sub'', ''b.txt''], size_f = 7,
        mtimeMs = Some (3601 / 2)\<rparr>]"

text \<open>Three runs: from 1000 to 2000 ms, from 3000 to 4000 ms, from 5000 to 6000 ms.\<close>

definition rd1 :: readings where
  "rd1 = \<lparr>now_start = 1000, now_end = 2000, queue_size = 0\<rparr>"

definition rd2 :: readings where
  "rd2 = \<lparr>now_start = 3000, now_end = 4000, queue_size = 0\<rparr>"

definition rd3 :: readings where
  "rd3 = \<lparr>now_start = 5000, now_end = 6000, queue_size = 0\<rparr>"



text \<open>
  The source directory as the walker finds it once the sidecar is on the disk, last
  modified at 2100 ms, and the files the walker yields then.
\<close>

definition tree1 :: node where
  "tree1 = Dir [(''.backup-folder.json'', File 2 2100), (''old.txt'', File 10 (- 1)),
                (''new.txt'', File 20 1500),
                (''sub'', Dir [(''.backup-folder.json'', File 5 1200),
                               (''b.txt'', File 7 (3601 / 2))])]"

definition files1 :: "fileobj list" where
  "files1 =
     \<lparr>path = [''home'', ''photos'', ''.backup-folder.json''], size_f = 2,
       mtimeMs = Some 2100\<rparr> # files0"

text \<open>
  The states the three runs leave one after the other from \<open>disk0\<close>; the state a run at
  1000 ms leaves when it starts from the second of them (the clock has been set back); the
  state a print-only run leaves from \<open>disk0\<close>; the state the first run leaves when the
  bucket refuses \<^verbatim>\<open>new.txt\<close>; and a disk with the first run's sidecar, listed by the walker,
  with the state the second run leaves from it.
\<close>

definition meta1 :: json where
  "meta1 = JObj [(''uploadStartTime'', JStr ''1970-01-01T00:00:01.000Z''),
                 (''uploadEndTime'', JStr ''1970-01-01T00:00:02.000Z''),
                 (''lastMetaData'', JObj [])]"

definition meta2 :: json where
  "meta2 = JObj [(''uploadStartTime'', JStr ''1970-01-01T00:00:03.000Z''),
                 (''uploadEndTime'', JStr ''1970-01-01T00:00:04.000Z''),
                 (''lastMetaData'',
                  JObj [(''uploadStartTime'', JStr ''1970-01-01T00:00:01.000Z''),
                        (''uploadEndTime'', JStr ''1970-01-01T00:00:02.000Z'')])]"

definition meta3 :: json where
  "meta3 = JObj [(''uploadStartTime'', JStr ''1970-01-01T00:00:05.000Z''),
                 (''uploadEndTime'', JStr ''1970-01-01T00:00:06.000Z''),
                 (''lastMetaData'',
                  JObj [(''uploadStartTime'', JStr ''1970-01-01T00:00:03.000Z''),
                        (''uploadEndTime'', JStr ''1970-01-01T00:00:04.000Z'')])]"

definition meta_back :: json where
  "meta_back = JObj [(''uploadStartTime'', JStr ''1970-01-01T00:00:01.000Z''),
                     (''uploadEndTime'', JStr ''1970-01-01T00:00:02.000Z''),
                     (''lastMetaData'',
                      JObj [(''uploadStartTime'', JStr ''1970-01-01T00:00:03.000Z''),
                            (''uploadEndTime'', JStr ''1970-01-01T00:00:04.000Z'')])]"

definition sidecar_task0 :: fileobj where
  "sidecar_task0 =
     \<lparr>path = [''home'', ''photos'', ''.backup-folder.json''], size_f = 2, mtimeMs = None\<rparr>"

definition out_all :: "string \<Rightarrow> line list" where
  "out_all label =
     [File_line 1 label [''new.txt''] 20,
      File_line 2 label [''sub'', ''.backup-folder.json''] 5,
      File_line 3 label [''sub'', ''b.txt''] 7,
      File_line 4 label [''.backup-folder.json''] 2, Summary label 4 5 34 44, Done_in 1000]"

definition puts_all :: "(path \<times> path) list" where
  "puts_all =
     [([''home'', ''photos'', ''new.txt''], [''backup'', ''new.txt'']),
      ([''home'', ''photos'', ''sub'', ''.backup-folder.json''],
       [''backup'', ''sub'', ''.backup-folder.json'']),
      ([''home'', ''photos'', ''sub'', ''b.txt''], [''backup'', ''sub'', ''b.txt'']),
      ([''home'', ''photos'', ''.backup-folder.json''], [''backup'', ''.backup-folder.json''])]"

definition disk_print :: "nat state" where
  "disk_print = disk0\<lparr>submitted := tl files0 @ [sidecar_task0],
       events := map Submitted (tl files0) @ [Submitted sidecar_task0],
       out := out_all ''will upload'',
       totalFiles := 5, totalSize := 44, totalUploadedFiles := 4, totalUploadedSize := 34,
       fileNum := 4, i_count := 4\<rparr>"

definition disk1 :: "nat state" where
  "disk1 = disk0\<lparr>sidecar := Parses meta1, store := 4, puts := puts_all,
       submitted := tl files0 @ [sidecar_task0],
       events := map Submitted (tl files0) @ [Wrote meta1, Submitted sidecar_task0],
       out := out_all ''uploaded'',
       totalFiles := 5, totalSize := 44, totalUploadedFiles := 4, totalUploadedSize := 34,
       fileNum := 4, i_count := 4\<rparr>"

definition disk2 :: "nat state" where
  "disk2 = disk1\<lparr>sidecar := Parses meta2, store := 8,
       events := map Submitted (tl files0) @ [Wrote meta2, Submitted sidecar_task0]\<rparr>"

definition disk3 :: "nat state" where
  "disk3 = disk2\<lparr>sidecar := Parses meta3, store := 9,
       puts := [([''home'', ''photos'', ''.backup-folder.json''],
                 [''backup'', ''.backup-folder.json''])],
       submitted := [sidecar_task0],
       events := [Wrote meta3, Submitted sidecar_task0],
       out := [File_line 1 ''uploaded'' [''.backup-folder.json''] 2,
               Summary ''uploaded'' 1 5 2 44, Done_in 1000],
       totalUploadedFiles := 1, totalUploadedSize := 2, fileNum := 1\<rparr>"

definition disk_back :: "nat state" where
  "disk_back = disk3\<lparr>sidecar := Parses meta_back,
       events := [Wrote meta_back, Submitted sidecar_task0]\<rparr>"


definition disk_listed :: "nat state" where
  "disk_listed = disk0\<lparr>tree := tree1, sidecar := Parses meta1\<rparr>"

definition disk_listed2 :: "nat state" where
  "disk_listed2 = disk1\<lparr>tree := tree1, sidecar := Parses meta2,
       events := map Submitted (tl files0) @ [Wrote meta2, Submitted sidecar_task0]\<rparr>"


section \<open>The retry wrapper\<close>

declare withRetries_loop.simps [simp del]

lemma loop_attempts_bound:
  "attempts (withRetries_loop fn retries a le s c ms) \<le> c + nat (retries - a)"
proof (induction fn retries a le s c ms rule: withRetries_loop.induct)
  case (1 fn retries a le s c ms)
  show ?case
  proof (cases "a < retries")
    case False
    then show ?thesis by (simp add: withRetries_loop.simps [of fn retries a])
  next
    case True
    obtain r s' where fs: "fn s = (r, s')" by (cases "fn s")
    show ?thesis
    proof (cases r)
      case (Inr v)
      with True fs show ?thesis
        by (simp add: withRetries_loop.simps [of fn retries a])
    next
      case (Inl e)
      have "attempts (withRetries_loop fn retries (a + 1) (Some e) s' (Suc c) (ms @ [message e]))
              \<le> Suc c + nat (retries - (a + 1))"
        using "1.IH" [OF True fs [symmetric] Inl] .
      with True fs Inl show ?thesis
        by (simp add: withRetries_loop.simps [of fn retries a])
    qed
  qed
qed

lemma loop_fails_then_succeeds:
  "outcomes fn (Suc (length es)) s = map Inl es @ [Inr v] \<Longrightarrow> a + int (length es) < retries \<Longrightarrow>
   withRetries_loop fn retries a le s c ms =
     \<lparr>result = Inr v, final = after fn (Suc (length es)) s,
      attempts = c + Suc (length es), logged = ms @ map message es\<rparr>"
proof (induction es arbitrary: s a le c ms)
  case Nil
  then show ?case
    by (auto simp: withRetries_loop.simps [of fn retries a] split: prod.splits)
next
  case (Cons e es)
  obtain r s' where fs: "fn s = (r, s')" by (cases "fn s")
  from Cons.prems(1) fs have r: "r = Inl e"
    and rest: "outcomes fn (Suc (length es)) s' = map Inl es @ [Inr v]"
    by (auto split: prod.splits)
  from Cons.prems(2) have lt: "a < retries" and lt': "(a + 1) + int (length es) < retries"
    by auto
  show ?case
    using Cons.IH [OF rest lt', of "Some e" "Suc c" "ms @ [message e]"] fs r lt
    by (simp add: withRetries_loop.simps [of fn retries a])
qed

lemma loop_exhausted:
  "outcomes fn (length es) s = map Inl es \<Longrightarrow> a + int (length es) = retries \<Longrightarrow>
   withRetries_loop fn retries a le s c ms =
     \<lparr>result = Inl (if es = [] then le else Some (last es)), final = after fn (length es) s,
      attempts = c + length es, logged = ms @ map message es\<rparr>"
proof (induction es arbitrary: s a le c ms)
  case Nil
  then show ?case
    by (simp add: withRetries_loop.simps [of fn retries retries])
next
  case (Cons e es)
  obtain r s' where fs: "fn s = (r, s')" by (cases "fn s")
  from Cons.prems(1) fs have r: "r = Inl e"
    and rest: "outcomes fn (length es) s' = map Inl es"
    by (auto split: prod.splits)
  from Cons.prems(2) have lt: "a < retries" and eq: "(a + 1) + int (length es) = retries"
    by auto
  show ?case
    using Cons.IH [OF rest eq, of "Some e" "Suc c" "ms @ [message e]"] fs r lt
    by (simp add: withRetries_loop.simps [of fn retries a])
qed

text \<open>
  C3. With the default budget \<open>withRetries\<close> calls the operation at most 3 times. If the
  operation fails \<open>k < 3\<close> times (with the errors \<open>es\<close>) and then succeeds with \<open>v\<close>,
  \<open>withRetries\<close> returns \<open>v\<close> after exactly \<open>k + 1\<close> calls, having logged the message of each
  failure. If the operation fails 3 times, \<open>withRetries\<close> throws the last error after exactly
  3 calls, having logged the three messages.
\<close>

theorem withRetries_default_budget:
  "attempts (withRetries fn None s) \<le> 3 \<and>
   (length es < 3 \<and> outcomes fn (Suc (length es)) s = map Inl es @ [Inr v] \<longrightarrow>
      withRetries fn None s =
        \<lparr>result = Inr v, final = after fn (Suc (length es)) s,
         attempts = Suc (length es), logged = map message es\<rparr>) \<and>
   (outcomes fn 3 s = map Inl es' \<longrightarrow>
      withRetries fn None s =
        \<lparr>result = Inl (Some (last es')), final = after fn 3 s,
         attempts = 3, logged = map message es'\<rparr>)"
proof (intro conjI impI)
  show "attempts (withRetries fn None s) \<le> 3"
    using loop_attempts_bound [of fn 3 0 None s 0 "[]"] by (simp add: withRetries_def)
next
  assume h: "length es < 3 \<and> outcomes fn (Suc (length es)) s = map Inl es @ [Inr v]"
  then have "0 + int (length es) < 3" by simp
  with h show "withRetries fn None s =
        \<lparr>result = Inr v, final = after fn (Suc (length es)) s,
         attempts = Suc (length es), logged = map message es\<rparr>"
    using loop_fails_then_succeeds [of fn es s v 0 3 None 0 "[]"] by (simp add: withRetries_def)
next
  assume h: "outcomes fn 3 s = map Inl es'"
  then have "length (outcomes fn 3 s) = length es'" by simp
  moreover have "length (outcomes fn n t) = n" for n t
    by (induction n arbitrary: t) (auto split: prod.splits)
  ultimately have len: "length es' = 3" by simp
  then have ne: "es' \<noteq> []" by auto
  from h len have "outcomes fn (length es') s = map Inl es'" by simp
  moreover from len have "0 + int (length es') = 3" by simp
  ultimately show "withRetries fn None s =
        \<lparr>result = Inl (Some (last es')), final = after fn 3 s,
         attempts = 3, logged = map message es'\<rparr>"
    using loop_exhausted [of fn es' s 0 3 None 0 "[]"] len ne by (simp add: withRetries_def)
qed

theorem withRetries_default_budget_witness:
  "withRetries flaky_op None 0 =
     \<lparr>result = Inr (), final = 3, attempts = 3, logged = [''unavailable'', ''unavailable'']\<rparr> \<and>
   withRetries failing_op None 0 =
     \<lparr>result = Inl (Some (Error None ''unavailable'')), final = 3, attempts = 3,
      logged = [''unavailable'', ''unavailable'', ''unavailable'']\<rparr>"
  using withRetries_default_budget
          [of flaky_op 0 "[Error None ''unavailable'', Error None ''unavailable'']" "()" "[]"]
        withRetries_default_budget
          [of failing_op 0 "[]" "()"
              "[Error None ''unavailable'', Error None ''unavailable'', Error None ''unavailable'']"]
  by (simp add: flaky_op_def failing_op_def numeral_3_eq_3)


section \<open>The walker\<close>

lemma walk_paths:
  "f \<in> set (fst (walk dir t)) \<Longrightarrow> \<exists>n rest. path f = dir @ n # rest"
  "f \<in> set (fst (walk_entries dir ds)) \<Longrightarrow> \<exists>n rest. path f = dir @ n # rest \<and> n \<in> fst ` set ds"
proof (induction dir t and dir ds arbitrary: f and f rule: walk_walk_entries.induct)
  case (1 dir ds)
  then show ?case by fastforce
next
  case (7 dir name ds rest)
  then show ?case
    by (fastforce split: prod.splits option.splits)
next
  case (8 dir name e rest)
  then show ?case by (auto split: prod.splits option.splits)
next
  case (9 dir name sz m rest)
  then show ?case by (fastforce split: prod.splits option.splits)
next
  case (11 dir name rest)
  then show ?case by fastforce
qed simp_all

lemma walk_mtime:
  "f \<in> set (fst (walk dir t)) \<Longrightarrow> \<exists>m. mtimeMs f = Some m"
  "f \<in> set (fst (walk_entries dir ds)) \<Longrightarrow> \<exists>m. mtimeMs f = Some m"
proof (induction dir t and dir ds arbitrary: f and f rule: walk_walk_entries.induct)
  case (7 dir name ds rest)
  then show ?case
    by (fastforce split: prod.splits option.splits)
next
  case (9 dir name sz m rest)
  then show ?case by (fastforce split: prod.splits option.splits)
qed (auto split: prod.splits option.splits)

lemma walk_distinct:
  "names_ok t \<Longrightarrow> distinct (map path (fst (walk dir t)))"
  "entries_ok ds \<Longrightarrow> distinct (map fst ds) \<Longrightarrow> distinct (map path (fst (walk_entries dir ds)))"
proof (induction dir t and dir ds rule: walk_walk_entries.induct)
  case (7 dir name ds rest)
  obtain fs r where w: "walk (dir @ [name]) (Dir ds) = (fs, r)"
    by (cases "walk (dir @ [name]) (Dir ds)")
  obtain gs r' where we: "walk_entries dir rest = (gs, r')"
    by (cases "walk_entries dir rest")
  from 7 w have d1: "distinct (map path fs)" by simp
  show ?case
  proof (cases r)
    case (Some e)
    with w d1 show ?thesis by simp
  next
    case None
    from "7.IH"(2) [OF w [symmetric] None] "7.prems" we have d2: "distinct (map path gs)" by simp
    have "path f \<noteq> path g" if "f \<in> set fs" "g \<in> set gs" for f g
    proof -
      from walk_paths(1) [of f "dir @ [name]" "Dir ds"] w that
      obtain n rest' where f: "path f = dir @ name # n # rest'" by auto
      from walk_paths(2) [of g dir rest] we that
      obtain n' rest'' where g: "path g = dir @ n' # rest''" "n' \<in> fst ` set rest" by auto
      from "7.prems" g have "n' \<noteq> name" by auto
      with f g show ?thesis by simp
    qed
    then have "set (map path fs) \<inter> set (map path gs) = {}" by auto
    with d1 d2 None w we show ?thesis by simp
  qed
next
  case (9 dir name sz m rest)
  obtain gs r' where we: "walk_entries dir rest = (gs, r')"
    by (cases "walk_entries dir rest")
  from 9 we have d2: "distinct (map path gs)" by simp
  have "path g \<noteq> dir @ [name]" if "g \<in> set gs" for g
  proof -
    from walk_paths(2) [of g dir rest] we that
    obtain n' rest'' where g: "path g = dir @ n' # rest''" "n' \<in> fst ` set rest" by auto
    from "9.prems" g have "n' \<noteq> name" by auto
    with g show ?thesis by simp
  qed
  then have "dir @ [name] \<notin> path ` set gs" by (metis imageE)
  with d2 we show ?case by simp
qed (auto split: prod.splits option.splits)

lemma filter_same_path:
  fixes xs :: "fileobj list"
  shows "distinct (map path xs) \<Longrightarrow> f \<in> set xs \<Longrightarrow> filter (\<lambda>g. path g = path f) xs = [f]"
proof (induction xs)
  case Nil
  then show ?case by simp
next
  case (Cons x xs)
  show ?case
  proof (cases "x = f")
    case True
    with Cons.prems have "path f \<notin> path ` set xs" by simp
    then have "\<forall>g\<in>set xs. path g \<noteq> path f" by (metis imageI)
    then have "filter (\<lambda>g. path g = path f) xs = []" by (simp add: filter_empty_conv)
    with True show ?thesis by simp
  next
    case False
    with Cons.prems have "f \<in> set xs" "path x \<noteq> path f" by auto
    with Cons show ?thesis by simp
  qed
qed

lemma count_in_filtered:
  fixes xs :: "fileobj list"
  assumes "distinct (map path xs)" and "f \<in> set xs"
  shows "length (filter (\<lambda>g. path g = path f) (filter P xs)) = (if P f then 1 else 0)"
proof -
  have "filter (\<lambda>g. path g = path f) (filter P xs) = filter P (filter (\<lambda>g. path g = path f) xs)"
    by (simp add: conj_commute)
  with filter_same_path [OF assms] show ?thesis by simp
qed


section \<open>The sample runs\<close>

lemma run1: "main cfg0 rt0 bucket_ok rd1 disk0 = (Exit 0, disk1)"
  by code_simp

lemma run2: "main cfg0 rt0 bucket_ok rd2 disk1 = (Exit 0, disk2)"
  by code_simp

lemma run3: "main cfg0 rt0 bucket_ok rd3 disk2 = (Exit 0, disk3)"
  by code_simp

lemma run_back: "main cfg0 rt0 bucket_ok rd1 disk2 = (Exit 0, disk_back)"
  by code_simp

lemma run_print: "main cfg_print rt0 bucket_ok rd1 disk0 = (Exit 0, disk_print)"
  by code_simp


lemma run_listed: "main cfg0 rt0 bucket_ok rd2 disk_listed = (Exit 0, disk_listed2)"
  by code_simp


section \<open>What a run keeps and what it submits\<close>

lemma loop_invariant:
  "P s \<Longrightarrow> \<forall>t. P t \<longrightarrow> P (snd (fn t)) \<Longrightarrow>
   P (final (withRetries_loop fn retries a le s c ms))"
proof (induction fn retries a le s c ms rule: withRetries_loop.induct)
  case (1 fn retries a le s c ms)
  show ?case
  proof (cases "a < retries")
    case False
    with "1.prems" show ?thesis by (simp add: withRetries_loop.simps [of fn retries a])
  next
    case True
    obtain r s' where fs: "fn s = (r, s')" by (cases "fn s")
    from "1.prems" fs have p: "P s'" by (metis snd_conv)
    show ?thesis
    proof (cases r)
      case (Inr v)
      with True fs p show ?thesis
        by (simp add: withRetries_loop.simps [of fn retries a])
    next
      case (Inl e)
      from "1.IH" [OF True fs [symmetric] Inl p "1.prems"(2)] True fs Inl show ?thesis
        by (simp add: withRetries_loop.simps [of fn retries a])
    qed
  qed
qed

lemma withRetries_invariant:
  assumes "P s" and "\<And>t. P t \<Longrightarrow> P (snd (fn t))"
  shows "P (final (withRetries fn opts s))"
  using loop_invariant [of P s fn] assms by (simp add: withRetries_def)

lemma withRetries_keeps:
  assumes "\<And>t. g (snd (fn t)) = g t"
  shows "g (final (withRetries fn opts s)) = g s"
  using withRetries_invariant [of "\<lambda>t. g t = g s" s fn opts] assms by simp

lemma upload_task_frame:
  assumes "upload_task cfg bucket f s = (r, s')"
  shows "submitted s' = submitted s" and "events s' = events s" and "sidecar s' = sidecar s"
    and "tree s' = tree s" and "writeFile_fails s' = writeFile_fails s"
    and "fst ` set (puts s') \<subseteq> insert (path f) (fst ` set (puts s))"
proof -
  let ?fn = "storageBucket_upload bucket (path f)
               (destinationDir cfg @ drop (length (source cfg)) (path f))"
  let ?w = "final (withRetries ?fn None s)"
  have keep: "submitted ?w = submitted s" "events ?w = events s" "sidecar ?w = sidecar s"
    "tree ?w = tree s" "writeFile_fails ?w = writeFile_fails s"
    by (rule withRetries_keeps, simp add: storageBucket_upload_def split: prod.splits)+
  have w: "fst ` set (puts ?w) \<subseteq> insert (path f) (fst ` set (puts s))"
    by (rule withRetries_invariant) (auto simp: storageBucket_upload_def split: prod.splits)
  from keep assms show "submitted s' = submitted s" and "events s' = events s"
    and "sidecar s' = sidecar s" and "tree s' = tree s"
    and "writeFile_fails s' = writeFile_fails s"
    by (auto simp: upload_task_def Let_def console_log_def split: if_splits sum.splits)
  from assms have "puts s' = puts s \<or> puts s' = puts ?w"
    by (auto simp: upload_task_def Let_def console_log_def split: if_splits sum.splits)
  then show "fst ` set (puts s') \<subseteq> insert (path f) (fst ` set (puts s))"
  proof
    assume "puts s' = puts s"
    then show ?thesis by (simp add: subset_insertI)
  next
    assume "puts s' = puts ?w"
    with w show ?thesis by simp
  qed
qed

lemma upload_frame:
  "submitted (upload cfg bucket f s) = submitted s @ [f]"
  "events (upload cfg bucket f s) = events s @ [Submitted f]"
  "sidecar (upload cfg bucket f s) = sidecar s"
  "tree (upload cfg bucket f s) = tree s"
  "writeFile_fails (upload cfg bucket f s) = writeFile_fails s"
  "fst ` set (puts (upload cfg bucket f s)) \<subseteq> insert (path f) (fst ` set (puts s))"
proof -
  let ?s1 = "s\<lparr>submitted := submitted s @ [f], events := events s @ [Submitted f]\<rparr>"
  have t: "upload_task cfg bucket f ?s1 = (fst (upload_task cfg bucket f ?s1), upload cfg bucket f s)"
    by (simp add: upload_def)
  note fr = upload_task_frame [OF t]
  from fr(1) show "submitted (upload cfg bucket f s) = submitted s @ [f]" by simp
  from fr(2) show "events (upload cfg bucket f s) = events s @ [Submitted f]" by simp
  from fr(3) show "sidecar (upload cfg bucket f s) = sidecar s" by simp
  from fr(4) show "tree (upload cfg bucket f s) = tree s" by simp
  from fr(5) show "writeFile_fails (upload cfg bucket f s) = writeFile_fails s" by simp
  from fr(6) show "fst ` set (puts (upload cfg bucket f s)) \<subseteq> insert (path f) (fst ` set (puts s))"
    by simp
qed

lemma upload_puts_submitted:
  assumes "fst ` set (puts s) \<subseteq> path ` set (submitted s)"
  shows "fst ` set (puts (upload cfg bucket f s)) \<subseteq> path ` set (submitted (upload cfg bucket f s))"
proof -
  have "fst ` set (puts (upload cfg bucket f s)) \<subseteq> insert (path f) (fst ` set (puts s))"
    by (rule upload_frame(6))
  also from assms have "\<dots> \<subseteq> insert (path f) (path ` set (submitted s))"
    by (rule insert_mono)
  also have "\<dots> = path ` set (submitted (upload cfg bucket f s))"
    by (simp add: upload_frame(1))
  finally show ?thesis .
qed

lemma scan_step_submitted:
  "submitted (scan_step cfg bucket lastMs f s) =
     submitted s @ (if path f \<noteq> metadataFilePath cfg \<and> ge_js (mtimeMs f) lastMs then [f] else [])"
  by (simp add: scan_step_def Let_def upload_frame console_log_def)

lemma scan_step_events:
  "events (scan_step cfg bucket lastMs f s) =
     events s @ (if path f \<noteq> metadataFilePath cfg \<and> ge_js (mtimeMs f) lastMs
                 then [Submitted f] else [])"
  by (simp add: scan_step_def Let_def upload_frame console_log_def)

lemma scan_step_frame:
  "sidecar (scan_step cfg bucket lastMs f s) = sidecar s \<and>
   tree (scan_step cfg bucket lastMs f s) = tree s \<and>
   writeFile_fails (scan_step cfg bucket lastMs f s) = writeFile_fails s"
  by (simp add: scan_step_def Let_def upload_frame console_log_def)

lemma scan_step_puts_submitted:
  assumes "fst ` set (puts s) \<subseteq> path ` set (submitted s)"
  shows "fst ` set (puts (scan_step cfg bucket lastMs f s)) \<subseteq>
         path ` set (submitted (scan_step cfg bucket lastMs f s))"
proof -
  let ?s1 = "s\<lparr>totalFiles := totalFiles s + 1, totalSize := totalSize s + size_f f\<rparr>"
  from assms have "fst ` set (puts ?s1) \<subseteq> path ` set (submitted ?s1)" by simp
  from upload_puts_submitted [OF this, of cfg bucket f] assms show ?thesis
    by (simp add: scan_step_def Let_def console_log_def)
qed

lemma scan_submitted:
  "submitted (scan cfg bucket lastMs files s) =
     submitted s @ filter (\<lambda>f. path f \<noteq> metadataFilePath cfg \<and> ge_js (mtimeMs f) lastMs) files"
  unfolding scan_def
  by (induction files arbitrary: s) (simp_all add: scan_step_submitted)

lemma scan_events:
  "events (scan cfg bucket lastMs files s) =
     events s @ map Submitted
       (filter (\<lambda>f. path f \<noteq> metadataFilePath cfg \<and> ge_js (mtimeMs f) lastMs) files)"
  unfolding scan_def
  by (induction files arbitrary: s) (simp_all add: scan_step_events)

lemma scan_frame:
  "sidecar (scan cfg bucket lastMs files s) = sidecar s \<and>
   tree (scan cfg bucket lastMs files s) = tree s \<and>
   writeFile_fails (scan cfg bucket lastMs files s) = writeFile_fails s"
  unfolding scan_def
  by (induction files arbitrary: s) (simp_all add: scan_step_frame)

lemma scan_puts_submitted:
  "fst ` set (puts s) \<subseteq> path ` set (submitted s) \<Longrightarrow>
   fst ` set (puts (scan cfg bucket lastMs files s)) \<subseteq>
   path ` set (submitted (scan cfg bucket lastMs files s))"
  unfolding scan_def
proof (induction files arbitrary: s)
  case Nil
  then show ?case by simp
next
  case (Cons f files)
  from Cons.IH [OF scan_step_puts_submitted [OF Cons.prems, of cfg bucket lastMs f]]
  show ?case by simp
qed

lemma fresh_fields:
  "submitted (fresh s) = []" "events (fresh s) = []" "puts (fresh s) = []" "out (fresh s) = []"
  "sidecar (fresh s) = sidecar s" "tree (fresh s) = tree s" "store (fresh s) = store s"
  "writeFile_fails (fresh s) = writeFile_fails s"
  by (simp_all add: fresh_def)

lemma commit_write_fails:
  "\<not> onlyPrint cfg \<Longrightarrow> writeFile_fails s = Some e \<Longrightarrow>
   commit cfg rt bucket rd metadata s = (Exit 1, logError (message e) s)"
  by (simp add: commit_def Let_def writeFile_def)

lemma commit_goes_on:
  assumes "onlyPrint cfg \<or> writeFile_fails s = None"
  shows "fst (commit cfg rt bucket rd metadata s) = Exit 0"
    and "submitted (snd (commit cfg rt bucket rd metadata s)) = submitted s @
           [\<lparr>path = metadataFilePath cfg,
             size_f = length (JSON_stringify rt
               (new_metadata rt (now_start rd) (now_end rd) metadata)),
             mtimeMs = None\<rparr>]"
    and "events (snd (commit cfg rt bucket rd metadata s)) = events s @
           (if onlyPrint cfg then []
            else [Wrote (new_metadata rt (now_start rd) (now_end rd) metadata)]) @
           [Submitted \<lparr>path = metadataFilePath cfg,
             size_f = length (JSON_stringify rt
               (new_metadata rt (now_start rd) (now_end rd) metadata)),
             mtimeMs = None\<rparr>]"
    and "sidecar (snd (commit cfg rt bucket rd metadata s)) =
           (if onlyPrint cfg then sidecar s
            else Parses (new_metadata rt (now_start rd) (now_end rd) metadata))"
    and "tree (snd (commit cfg rt bucket rd metadata s)) = tree s"
    and "fst ` set (puts (snd (commit cfg rt bucket rd metadata s))) \<subseteq>
           insert (metadataFilePath cfg) (fst ` set (puts s))"
proof -
  let ?m = "new_metadata rt (now_start rd) (now_end rd) metadata"
  let ?task = "\<lparr>path = metadataFilePath cfg, size_f = length (JSON_stringify rt ?m),
                mtimeMs = None\<rparr>"
  let ?s1 = "if onlyPrint cfg then s else s\<lparr>sidecar := Parses ?m, events := events s @ [Wrote ?m]\<rparr>"
  let ?s3 = "upload cfg bucket ?task
      (?s1\<lparr>totalFiles := totalFiles ?s1 + 1,
           totalSize := totalSize ?s1 + length (JSON_stringify rt ?m)\<rparr>)"
  from assms have wr: "(if \<not> onlyPrint cfg then writeFile ?m s else Inr s) = Inr ?s1"
    by (auto simp: writeFile_def)
  have c: "commit cfg rt bucket rd metadata s =
      (Exit 0, console_log (Done_in (now_end rd - now_start rd))
         (console_log (Summary (uploadedLabel cfg) (totalUploadedFiles ?s3) (totalFiles ?s3)
            (totalUploadedSize ?s3) (totalSize ?s3)) ?s3))"
    using wr by (simp add: commit_def Let_def waitIdle_def)
  from c show "fst (commit cfg rt bucket rd metadata s) = Exit 0" by simp
  from c show "submitted (snd (commit cfg rt bucket rd metadata s)) = submitted s @ [?task]"
    by (simp add: console_log_def upload_frame)
  from c show "events (snd (commit cfg rt bucket rd metadata s)) = events s @
           (if onlyPrint cfg then [] else [Wrote ?m]) @ [Submitted ?task]"
    by (simp add: console_log_def upload_frame)
  from c show "sidecar (snd (commit cfg rt bucket rd metadata s)) =
           (if onlyPrint cfg then sidecar s else Parses ?m)"
    by (simp add: console_log_def upload_frame)
  from c show "tree (snd (commit cfg rt bucket rd metadata s)) = tree s"
    by (simp add: console_log_def upload_frame)
  have "fst ` set (puts ?s3) \<subseteq> insert (metadataFilePath cfg) (fst ` set (puts s))"
    using upload_frame(6) [of cfg bucket ?task
        "?s1\<lparr>totalFiles := totalFiles ?s1 + 1,
             totalSize := totalSize ?s1 + length (JSON_stringify rt ?m)\<rparr>"]
    by (cases "onlyPrint cfg") simp_all
  with c show "fst ` set (puts (snd (commit cfg rt bucket rd metadata s))) \<subseteq>
           insert (metadataFilePath cfg) (fst ` set (puts s))"
    by (simp add: console_log_def)
qed


lemma main_load_fails:
  "load cfg (fresh s) = Inl sx \<Longrightarrow> main cfg rt bucket rd s = (Exit 1, sx)"
  by (simp add: main_def)

lemma main_scan_fails:
  assumes "load cfg (fresh s) = Inr metadata"
    and "walk (source cfg) (tree s) = (files, Some e)"
  shows "main cfg rt bucket rd s =
           (Exit 1, logError (message e)
                      (scan cfg bucket (lastUploadTimeMs rt metadata) files (fresh s)))"
  using assms by (simp add: main_def Let_def fresh_fields)

lemma main_commits:
  assumes "load cfg (fresh s) = Inr metadata"
    and "walk (source cfg) (tree s) = (files, None)"
  shows "main cfg rt bucket rd s =
           commit cfg rt bucket rd metadata
             (if queue_size rd \<ge> 1
              then console_log All_uploaded
                     (console_log Waiting
                        (scan cfg bucket (lastUploadTimeMs rt metadata) files (fresh s)))
              else scan cfg bucket (lastUploadTimeMs rt metadata) files (fresh s))"
  using assms by (simp add: main_def Let_def fresh_fields waitIdle_def)

lemma main_result:
  assumes "load cfg (fresh s) = Inr metadata"
    and "walk (source cfg) (tree s) = (files, thrown)"
  shows "fst (main cfg rt bucket rd s) =
           (if thrown = None \<and> (onlyPrint cfg \<or> writeFile_fails s = None)
            then Exit 0 else Exit 1)"
    and "submitted (snd (main cfg rt bucket rd s)) =
           filter (\<lambda>f. path f \<noteq> metadataFilePath cfg \<and>
                     ge_js (mtimeMs f) (lastUploadTimeMs rt metadata)) files @
           (if thrown = None \<and> (onlyPrint cfg \<or> writeFile_fails s = None)
            then [\<lparr>path = metadataFilePath cfg,
                   size_f = length (JSON_stringify rt
                     (new_metadata rt (now_start rd) (now_end rd) metadata)),
                   mtimeMs = None\<rparr>]
            else [])"
    and "events (snd (main cfg rt bucket rd s)) =
           map Submitted
             (filter (\<lambda>f. path f \<noteq> metadataFilePath cfg \<and>
                        ge_js (mtimeMs f) (lastUploadTimeMs rt metadata)) files) @
           (if thrown = None \<and> (onlyPrint cfg \<or> writeFile_fails s = None)
            then (if onlyPrint cfg then []
                  else [Wrote (new_metadata rt (now_start rd) (now_end rd) metadata)]) @
                 [Submitted \<lparr>path = metadataFilePath cfg,
                    size_f = length (JSON_stringify rt
                      (new_metadata rt (now_start rd) (now_end rd) metadata)),
                    mtimeMs = None\<rparr>]
            else [])"
    and "sidecar (snd (main cfg rt bucket rd s)) =
           (if thrown = None \<and> \<not> onlyPrint cfg \<and> writeFile_fails s = None
            then Parses (new_metadata rt (now_start rd) (now_end rd) metadata)
            else sidecar s)"
    and "tree (snd (main cfg rt bucket rd s)) = tree s"
    and "fst ` set (puts (snd (main cfg rt bucket rd s))) \<subseteq>
           path ` set (submitted (snd (main cfg rt bucket rd s)))"
proof -
  let ?wm = "lastUploadTimeMs rt metadata"
  let ?tasks = "filter (\<lambda>f. path f \<noteq> metadataFilePath cfg \<and> ge_js (mtimeMs f) ?wm) files"
  let ?m = "new_metadata rt (now_start rd) (now_end rd) metadata"
  let ?task = "\<lparr>path = metadataFilePath cfg, size_f = length (JSON_stringify rt ?m),
                mtimeMs = None\<rparr>"
  let ?s1 = "scan cfg bucket ?wm files (fresh s)"
  let ?s4 = "if queue_size rd \<ge> 1
             then console_log All_uploaded (console_log Waiting ?s1) else ?s1"
  let ?goes = "thrown = None \<and> (onlyPrint cfg \<or> writeFile_fails s = None)"
  have p1: "fst ` set (puts ?s1) \<subseteq> path ` set (submitted ?s1)"
    by (rule scan_puts_submitted) (simp add: fresh_fields)
  have s4: "submitted ?s4 = ?tasks" "events ?s4 = map Submitted ?tasks"
    "sidecar ?s4 = sidecar s" "tree ?s4 = tree s" "writeFile_fails ?s4 = writeFile_fails s"
    "puts ?s4 = puts ?s1"
    by (simp_all add: console_log_def scan_submitted scan_events scan_frame fresh_fields)
  from p1 s4 have p4: "fst ` set (puts ?s4) \<subseteq> path ` set ?tasks"
    by (simp add: scan_submitted fresh_fields)
  have r: "fst (main cfg rt bucket rd s) = (if ?goes then Exit 0 else Exit 1) \<and>
    submitted (snd (main cfg rt bucket rd s)) = ?tasks @ (if ?goes then [?task] else []) \<and>
    events (snd (main cfg rt bucket rd s)) = map Submitted ?tasks @
      (if ?goes then (if onlyPrint cfg then [] else [Wrote ?m]) @ [Submitted ?task] else []) \<and>
    sidecar (snd (main cfg rt bucket rd s)) =
      (if thrown = None \<and> \<not> onlyPrint cfg \<and> writeFile_fails s = None
       then Parses ?m else sidecar s) \<and>
    tree (snd (main cfg rt bucket rd s)) = tree s \<and>
    fst ` set (puts (snd (main cfg rt bucket rd s))) \<subseteq>
      path ` set (submitted (snd (main cfg rt bucket rd s)))"
  proof (cases thrown)
    case (Some e)
    from main_scan_fails [OF assms(1) assms(2) [unfolded Some], of rt bucket rd]
    have "main cfg rt bucket rd s = (Exit 1, logError (message e) ?s1)" .
    with Some p1 show ?thesis
      by (simp add: logError_def console_log_def scan_submitted scan_events scan_frame
          fresh_fields)
  next
    case None
    from main_commits [OF assms(1) assms(2) [unfolded None], of rt bucket rd]
    have m: "main cfg rt bucket rd s = commit cfg rt bucket rd metadata ?s4" .
    show ?thesis
    proof (cases "onlyPrint cfg \<or> writeFile_fails s = None")
      case True
      with s4 have g: "onlyPrint cfg \<or> writeFile_fails ?s4 = None" by simp
      note c = commit_goes_on [OF g, of rt bucket rd metadata]
      from c(6) p4 have "fst ` set (puts (snd (commit cfg rt bucket rd metadata ?s4))) \<subseteq>
          insert (metadataFilePath cfg) (path ` set ?tasks)"
        by blast
      with c(1,2,3,4,5) s4 m None True show ?thesis by auto
    next
      case False
      then obtain e where e: "\<not> onlyPrint cfg" "writeFile_fails s = Some e" by auto
      with s4 have "writeFile_fails ?s4 = Some e" by simp
      from commit_write_fails [OF e(1) this, of rt bucket rd metadata] m
      have "main cfg rt bucket rd s = (Exit 1, logError (message e) ?s4)" by simp
      with s4 p4 None e show ?thesis
        by (simp add: logError_def console_log_def)
    qed
  qed
  from r show "fst (main cfg rt bucket rd s) = (if ?goes then Exit 0 else Exit 1)" by blast
  from r show "submitted (snd (main cfg rt bucket rd s)) =
      ?tasks @ (if ?goes then [?task] else [])" by blast
  from r show "events (snd (main cfg rt bucket rd s)) = map Submitted ?tasks @
      (if ?goes then (if onlyPrint cfg then [] else [Wrote ?m]) @ [Submitted ?task] else [])"
    by blast
  from r show "sidecar (snd (main cfg rt bucket rd s)) =
      (if thrown = None \<and> \<not> onlyPrint cfg \<and> writeFile_fails s = None
       then Parses ?m else sidecar s)" by blast
  from r show "tree (snd (main cfg rt bucket rd s)) = tree s" by blast
  from r show "fst ` set (puts (snd (main cfg rt bucket rd s))) \<subseteq>
      path ` set (submitted (snd (main cfg rt bucket rd s)))" by blast
qed

lemma main_trace:
  assumes "main cfg rt bucket rd s = (r, s')"
    and "load cfg (fresh s) = Inr metadata"
    and "walk (source cfg) (tree s) = (files, thrown)"
  shows "tree s' = tree s \<and> fst ` set (puts s') \<subseteq> path ` set (submitted s') \<and>
         ((submitted s' = filter (\<lambda>f. path f \<noteq> metadataFilePath cfg \<and>
                             ge_js (mtimeMs f) (lastUploadTimeMs rt metadata)) files \<and>
           sidecar s' = sidecar s \<and> r \<noteq> Exit 0) \<or>
          (thrown = None \<and>
           submitted s' = filter (\<lambda>f. path f \<noteq> metadataFilePath cfg \<and>
                             ge_js (mtimeMs f) (lastUploadTimeMs rt metadata)) files @
             [\<lparr>path = metadataFilePath cfg,
               size_f = length (JSON_stringify rt
                 (new_metadata rt (now_start rd) (now_end rd) metadata)),
               mtimeMs = None\<rparr>] \<and>
           sidecar s' = (if onlyPrint cfg then sidecar s
                         else Parses (new_metadata rt (now_start rd) (now_end rd) metadata))))"
proof -
  from assms(1) have rs: "r = fst (main cfg rt bucket rd s)" "s' = snd (main cfg rt bucket rd s)"
    by simp_all
  note m = main_result [OF assms(2,3), of rt bucket rd]
  show ?thesis
  proof (cases "thrown = None \<and> (onlyPrint cfg \<or> writeFile_fails s = None)")
    case True
    with m(1,2,4,5,6) rs show ?thesis by auto
  next
    case False
    with m(1,2,4,5,6) rs show ?thesis by auto
  qed
qed


lemma sample_loads:
  "load cfg0 (fresh disk0) = Inr (JObj [])"
  "load cfg0 (fresh disk1) = Inr meta1"
  "load cfg0 (fresh disk2) = Inr meta2"
  "load cfg0 (fresh disk_listed) = Inr meta1"
  by (simp_all add: load_def load_catch_def fresh_def disk0_def disk1_def disk2_def
      disk_listed_def ENOENT_def meta1_def meta2_def)

lemma sample_walks:
  "walk (source cfg0) (tree disk0) = (files0, None)"
  "walk (source cfg0) (tree disk1) = (files0, None)"
  "walk (source cfg0) (tree disk2) = (files0, None)"
  "names_ok (tree disk0)"
  "walk (source cfg0) (tree disk_listed) = (files1, None)"
  by (simp_all add: cfg0_def disk0_def disk1_def disk2_def disk_listed_def tree0_def tree1_def
      files0_def files1_def)

lemma sample_clock:
  "toISOString rt0 (now_start rd1) = ''1970-01-01T00:00:01.000Z''"
  "toISOString rt0 (now_start rd2) = ''1970-01-01T00:00:03.000Z''"
  "Date_parse rt0 (toISOString rt0 (now_start rd1)) = Some (now_start rd1)"
  "Date_parse rt0 (toISOString rt0 (now_start rd2)) = Some (now_start rd2)"
  by (simp_all add: rt0_def iso_table_def rd1_def rd2_def)

lemma sample_watermarks:
  "lastUploadTimeMs rt0 meta1 = Some 1000"
  "lastUploadTimeMs rt0 meta2 = Some 3000"
  "lastUploadTimeMs rt0 meta3 = Some 5000"
  "lastUploadTimeMs rt0 meta_back = Some 1000"
  by (simp_all add: lastUploadTimeMs_def rt0_def iso_table_def meta1_def meta2_def meta3_def
      meta_back_def)

lemma sample_config: "\<not> onlyPrint cfg0" "\<not> isWinows cfg0" "\<not> quiet cfg0"
  by (simp_all add: cfg0_def)


section \<open>The scan\<close>

lemma load_absent:
  "sidecar s = Read_fails e \<Longrightarrow> code e = Some ''ENOENT'' \<Longrightarrow> load cfg s = Inr (JObj [])"
  by (simp add: load_def load_catch_def)

lemma watermark_of_no_metadata: "lastUploadTimeMs rt (JObj []) = Some 0"
  by (simp add: lastUploadTimeMs_def TimeClip_def)

lemma ge_js_Some: "ge_js (Some m) wm = (case wm of None \<Rightarrow> False | Some w \<Rightarrow> of_int w \<le> m)"
  by (simp add: ge_js_def split: option.splits)

lemma scan_count:
  assumes "walk (source cfg) t = (files, thrown)" and "names_ok t"
    and "f \<in> set files" and "path f \<noteq> metadataFilePath cfg"
  shows "\<exists>m. mtimeMs f = Some m \<and>
           length (filter (\<lambda>g. path g = path f) (submitted (scan cfg bucket wm files (fresh s)))) =
             (case wm of None \<Rightarrow> 0 | Some w \<Rightarrow> if of_int w \<le> m then 1 else 0)"
proof -
  from walk_distinct(1) [OF assms(2), of "source cfg"] assms(1)
  have d: "distinct (map path files)" by simp
  from walk_mtime(1) [of f "source cfg" t] assms(1,3)
  obtain m where m: "mtimeMs f = Some m" by auto
  have "length (filter (\<lambda>g. path g = path f) (submitted (scan cfg bucket wm files (fresh s)))) =
          (if path f \<noteq> metadataFilePath cfg \<and> ge_js (mtimeMs f) wm then 1 else 0)"
    using count_in_filtered [OF d assms(3),
        of "\<lambda>f. path f \<noteq> metadataFilePath cfg \<and> ge_js (mtimeMs f) wm"]
    by (simp add: scan_submitted fresh_fields)
  with m assms(4) show ?thesis
    by (simp add: ge_js_Some split: option.splits)
qed

text \<open>
  C1, as the program has it. In the scan of a run, a regular file the walker finds, other
  than the sidecar, is submitted exactly once when its modification time is at or after the
  watermark, and not at all when it is before the watermark (or when the watermark is not a
  valid time). Without a sidecar the watermark is the epoch, and then a file is submitted
  exactly when its modification time is not before the epoch.
\<close>

theorem scan_submits_files_at_or_after_watermark:
  assumes "load cfg (fresh s) = Inr metadata"
    and "walk (source cfg) (tree s) = (files, thrown)"
    and "names_ok (tree s)"
    and "f \<in> set files"
    and "path f \<noteq> metadataFilePath cfg"
  shows "\<exists>m. mtimeMs f = Some m \<and>
           length (filter (\<lambda>g. path g = path f)
                     (submitted (scan cfg bucket (lastUploadTimeMs rt metadata) files (fresh s)))) =
             (case lastUploadTimeMs rt metadata of
                None \<Rightarrow> 0
              | Some w \<Rightarrow> if of_int w \<le> m then 1 else 0) \<and>
           (sidecar s = Read_fails e \<and> code e = Some ''ENOENT'' \<longrightarrow>
              lastUploadTimeMs rt metadata = Some 0 \<and>
              length (filter (\<lambda>g. path g = path f)
                        (submitted (scan cfg bucket (lastUploadTimeMs rt metadata) files (fresh s)))) =
                (if 0 \<le> m then 1 else 0))"
proof -
  from scan_count [OF assms(2,3,4,5), where wm = "lastUploadTimeMs rt metadata" and s = s
      and bucket = bucket]
  obtain m where m: "mtimeMs f = Some m"
    "length (filter (\<lambda>g. path g = path f)
               (submitted (scan cfg bucket (lastUploadTimeMs rt metadata) files (fresh s)))) =
       (case lastUploadTimeMs rt metadata of None \<Rightarrow> 0
        | Some w \<Rightarrow> if of_int w \<le> m then 1 else 0)"
    by blast
  have "lastUploadTimeMs rt metadata = Some 0"
    if "sidecar s = Read_fails e" "code e = Some ''ENOENT''"
  proof -
    from that have "load cfg (fresh s) = Inr (JObj [])"
      by (simp add: load_absent fresh_fields)
    with assms(1) have "metadata = JObj []" by simp
    then show ?thesis by (simp add: watermark_of_no_metadata)
  qed
  with m show ?thesis by auto
qed

theorem scan_submits_files_at_or_after_watermark_witness:
  "load cfg0 (fresh disk0) = Inr (JObj []) \<and>
   walk (source cfg0) (tree disk0) = (files0, None) \<and>
   names_ok (tree disk0) \<and>
   sidecar disk0 = Read_fails ENOENT \<and> code ENOENT = Some ''ENOENT'' \<and>
   length (filter (\<lambda>g. path g = [''home'', ''photos'', ''new.txt''])
             (submitted (scan cfg0 bucket_ok (Some 0) files0 (fresh disk0)))) = 1 \<and>
   length (filter (\<lambda>g. path g = [''home'', ''photos'', ''old.txt''])
             (submitted (scan cfg0 bucket_ok (Some 0) files0 (fresh disk0)))) = 0"
proof -
  have l: "load cfg0 (fresh disk0) = Inr (JObj [])"
    by (simp add: load_def load_catch_def fresh_def disk0_def ENOENT_def)
  have w: "walk (source cfg0) (tree disk0) = (files0, None)"
    by (simp add: cfg0_def disk0_def tree0_def files0_def)
  have n: "names_ok (tree disk0)"
    by (simp add: disk0_def tree0_def)
  have new: "\<lparr>path = [''home'', ''photos'', ''new.txt''], size_f = 20, mtimeMs = Some 1500\<rparr>
               \<in> set files0"
    and old: "\<lparr>path = [''home'', ''photos'', ''old.txt''], size_f = 10, mtimeMs = Some (- 1)\<rparr>
               \<in> set files0"
    by (simp_all add: files0_def)
  have p: "[''home'', ''photos'', ''new.txt''] \<noteq> metadataFilePath cfg0"
    "[''home'', ''photos'', ''old.txt''] \<noteq> metadataFilePath cfg0"
    by (simp_all add: metadataFilePath_def cfg0_def)
  from scan_submits_files_at_or_after_watermark
         [OF l w n new, where rt = rt0 and e = ENOENT and bucket = bucket_ok]
    scan_submits_files_at_or_after_watermark
         [OF l w n old, where rt = rt0 and e = ENOENT and bucket = bucket_ok] p l w n
  show ?thesis
    by (simp add: watermark_of_no_metadata disk0_def ENOENT_def)
qed

text \<open>
  The claim says that without prior metadata every file qualifies. In the first run on
  \<open>disk0\<close>, which has no sidecar, the walker finds \<^verbatim>\<open>old.txt\<close>, last modified one millisecond
  before the epoch, and no task is submitted for it.
\<close>

theorem first_run_leaves_out_file_from_before_epoch:
  "sidecar disk0 = Read_fails ENOENT \<and> code ENOENT = Some ''ENOENT'' \<and>
   walk (source cfg0) (tree disk0) = (files0, None) \<and>
   hd files0 = \<lparr>path = [''home'', ''photos'', ''old.txt''], size_f = 10, mtimeMs = Some (- 1)\<rparr> \<and>
   map path (submitted (snd (main cfg0 rt0 bucket_ok rd1 disk0))) =
     [[''home'', ''photos'', ''new.txt''], [''home'', ''photos'', ''sub'', ''.backup-folder.json''],
      [''home'', ''photos'', ''sub'', ''b.txt''], [''home'', ''photos'', ''.backup-folder.json'']]"
proof -
  have "submitted (snd (main cfg0 rt0 bucket_ok rd1 disk0)) = submitted disk1"
    by (simp add: run1)
  then have "map path (submitted (snd (main cfg0 rt0 bucket_ok rd1 disk0))) =
     [[''home'', ''photos'', ''new.txt''], [''home'', ''photos'', ''sub'', ''.backup-folder.json''],
      [''home'', ''photos'', ''sub'', ''b.txt''], [''home'', ''photos'', ''.backup-folder.json'']]"
    by (simp add: disk1_def files0_def sidecar_task0_def)
  moreover have "sidecar disk0 = Read_fails ENOENT" "code ENOENT = Some ''ENOENT''"
    "walk (source cfg0) (tree disk0) = (files0, None)"
    "hd files0 = \<lparr>path = [''home'', ''photos'', ''old.txt''], size_f = 10, mtimeMs = Some (- 1)\<rparr>"
    by (simp_all add: disk0_def ENOENT_def cfg0_def tree0_def files0_def)
  ultimately show ?thesis by blast
qed


section \<open>Print-only runs\<close>

lemma upload_print:
  assumes "onlyPrint cfg" and "\<not> isWinows cfg"
  shows "puts (upload cfg bucket f s) = puts s"
    and "store (upload cfg bucket f s) = store s"
    and "length (filter is_File_line (out (upload cfg bucket f s))) =
           length (filter is_File_line (out s)) + (if quiet cfg then 0 else 1)"
  using assms by (simp_all add: upload_def upload_task_def Let_def console_log_def)

lemma scan_step_print:
  assumes "onlyPrint cfg" and "\<not> isWinows cfg"
  shows "puts (scan_step cfg bucket lastMs f s) = puts s"
    and "store (scan_step cfg bucket lastMs f s) = store s"
    and "length (filter is_File_line (out (scan_step cfg bucket lastMs f s))) =
           length (filter is_File_line (out s)) +
           (if quiet cfg then 0
            else length (filter (\<lambda>f. path f \<noteq> metadataFilePath cfg \<and>
                           ge_js (mtimeMs f) lastMs) [f]))"
  using upload_print [OF assms, of bucket f
      "s\<lparr>totalFiles := totalFiles s + 1, totalSize := totalSize s + size_f f\<rparr>"]
  by (simp_all add: scan_step_def Let_def console_log_def)

lemma scan_print:
  assumes "onlyPrint cfg" and "\<not> isWinows cfg"
  shows "puts (scan cfg bucket lastMs files s) = puts s \<and>
         store (scan cfg bucket lastMs files s) = store s \<and>
         length (filter is_File_line (out (scan cfg bucket lastMs files s))) =
           length (filter is_File_line (out s)) +
           (if quiet cfg then 0
            else length (filter (\<lambda>f. path f \<noteq> metadataFilePath cfg \<and>
                           ge_js (mtimeMs f) lastMs) files))"
  unfolding scan_def
proof (induction files arbitrary: s)
  case Nil
  show ?case by simp
next
  case (Cons f files)
  note st = scan_step_print [OF assms, of bucket lastMs f s]
  from Cons.IH [of "scan_step cfg bucket lastMs f s"] st show ?case
    by (cases "quiet cfg") simp_all
qed

text \<open>
  C8, as the program has it. On a platform other than Windows, a print-only run that gets
  through the loading and the scan ends with exit code 0, makes no call of the bucket's
  upload and leaves the sidecar on disk as it was. With \<open>N\<close> eligible files it prints
  \<open>N + 1\<close> file lines, one for each eligible file and one for the sidecar, unless it is
  quiet, and then it prints none.
\<close>

theorem print_only_run:
  assumes "onlyPrint cfg" and "\<not> isWinows cfg"
    and "load cfg (fresh s) = Inr metadata"
    and "walk (source cfg) (tree s) = (files, None)"
    and "main cfg rt bucket rd s = (r, s')"
  shows "r = Exit 0 \<and> puts s' = [] \<and> store s' = store s \<and> sidecar s' = sidecar s \<and>
         length (filter is_File_line (out s')) =
           (if quiet cfg then 0
            else Suc (length (filter (\<lambda>f. path f \<noteq> metadataFilePath cfg \<and>
                                ge_js (mtimeMs f) (lastUploadTimeMs rt metadata)) files)))"
proof -
  let ?wm = "lastUploadTimeMs rt metadata"
  let ?tasks = "filter (\<lambda>f. path f \<noteq> metadataFilePath cfg \<and> ge_js (mtimeMs f) ?wm) files"
  let ?s1 = "scan cfg bucket ?wm files (fresh s)"
  let ?s4 = "if queue_size rd \<ge> 1
             then console_log All_uploaded (console_log Waiting ?s1) else ?s1"
  let ?m = "new_metadata rt (now_start rd) (now_end rd) metadata"
  let ?task = "\<lparr>path = metadataFilePath cfg, size_f = length (JSON_stringify rt ?m),
                mtimeMs = None\<rparr>"
  let ?s5 = "?s4\<lparr>totalFiles := totalFiles ?s4 + 1,
                 totalSize := totalSize ?s4 + length (JSON_stringify rt ?m)\<rparr>"
  let ?s6 = "upload cfg bucket ?task ?s5"
  from scan_print [OF assms(1,2), of bucket ?wm files "fresh s"]
  have s5: "puts ?s5 = []" "store ?s5 = store s"
    "length (filter is_File_line (out ?s5)) = (if quiet cfg then 0 else length ?tasks)"
    by (cases "quiet cfg"; simp add: console_log_def fresh_fields)+
  from upload_print [OF assms(1,2), of bucket ?task ?s5] s5
  have s6: "puts ?s6 = []" "store ?s6 = store s"
    "length (filter is_File_line (out ?s6)) = (if quiet cfg then 0 else Suc (length ?tasks))"
    by (cases "quiet cfg"; simp)+
  from main_commits [OF assms(3,4), of rt bucket rd] assms(1,5)
  have "s' = console_log (Done_in (now_end rd - now_start rd))
            (console_log (Summary (uploadedLabel cfg) (totalUploadedFiles ?s6) (totalFiles ?s6)
               (totalUploadedSize ?s6) (totalSize ?s6)) ?s6)"
    by (simp add: commit_def Let_def waitIdle_def)
  with s6 have "puts s' = []" "store s' = store s"
    "length (filter is_File_line (out s')) = (if quiet cfg then 0 else Suc (length ?tasks))"
    by (cases "quiet cfg"; simp add: console_log_def)+
  moreover from main_result(1,4) [OF assms(3,4), of rt bucket rd] assms(1,5)
  have "r = Exit 0" "sidecar s' = sidecar s" by simp_all
  ultimately show ?thesis by simp
qed

theorem print_only_run_witness:
  "onlyPrint cfg_print \<and> \<not> isWinows cfg_print \<and> \<not> quiet cfg_print \<and>
   load cfg_print (fresh disk0) = Inr (JObj []) \<and>
   walk (source cfg_print) (tree disk0) = (files0, None) \<and>
   main cfg_print rt0 bucket_ok rd1 disk0 = (Exit 0, disk_print) \<and>
   puts disk_print = [] \<and> store disk_print = store disk0 \<and>
   sidecar disk_print = sidecar disk0 \<and>
   length (filter is_File_line (out disk_print)) = 4"
proof -
  have c: "onlyPrint cfg_print" "\<not> isWinows cfg_print" "\<not> quiet cfg_print"
    by (simp_all add: cfg_print_def cfg0_def)
  have l: "load cfg_print (fresh disk0) = Inr (JObj [])"
    by (simp add: load_def load_catch_def fresh_def disk0_def ENOENT_def)
  have w: "walk (source cfg_print) (tree disk0) = (files0, None)"
    by (simp add: cfg_print_def cfg0_def disk0_def tree0_def files0_def)
  from print_only_run [OF c(1,2) l w run_print] c l w run_print
  show ?thesis
    by (simp add: watermark_of_no_metadata files0_def metadataFilePath_def cfg_print_def
        cfg0_def ge_js_def)
qed

text \<open>
  The claim says \<open>N\<close> lines for \<open>N\<close> eligible files. The print-only run on \<open>disk0\<close> is not
  quiet and submits three files in its scan; it prints four file lines, the last one for
  the sidecar.
\<close>

theorem print_only_run_prints_line_for_sidecar:
  "onlyPrint cfg_print \<and> \<not> quiet cfg_print \<and>
   length (submitted (scan cfg_print bucket_ok (lastUploadTimeMs rt0 (JObj [])) files0
              (fresh disk0))) = 3 \<and>
   filter is_File_line (out (snd (main cfg_print rt0 bucket_ok rd1 disk0))) =
     [File_line 1 ''will upload'' [''new.txt''] 20,
      File_line 2 ''will upload'' [''sub'', ''.backup-folder.json''] 5,
      File_line 3 ''will upload'' [''sub'', ''b.txt''] 7,
      File_line 4 ''will upload'' [''.backup-folder.json''] 2]"
proof -
  have "out (snd (main cfg_print rt0 bucket_ok rd1 disk0)) = out disk_print"
    by (simp add: run_print)
  then have "filter is_File_line (out (snd (main cfg_print rt0 bucket_ok rd1 disk0))) =
     [File_line 1 ''will upload'' [''new.txt''] 20,
      File_line 2 ''will upload'' [''sub'', ''.backup-folder.json''] 5,
      File_line 3 ''will upload'' [''sub'', ''b.txt''] 7,
      File_line 4 ''will upload'' [''.backup-folder.json''] 2]"
    by (simp add: disk_print_def out_all_def)
  moreover have "onlyPrint cfg_print" "\<not> quiet cfg_print"
    by (simp_all add: cfg_print_def cfg0_def)
  moreover have
    "length (submitted (scan cfg_print bucket_ok (lastUploadTimeMs rt0 (JObj [])) files0
              (fresh disk0))) = 3"
    by (simp add: scan_submitted fresh_fields watermark_of_no_metadata files0_def
        metadataFilePath_def cfg_print_def cfg0_def ge_js_def)
  ultimately show ?thesis by blast
qed


section \<open>Files called like the sidecar\<close>

lemma submitted_count:
  assumes "main cfg rt bucket rd s = (r, s')"
    and "load cfg (fresh s) = Inr metadata"
    and "walk (source cfg) (tree s) = (files, thrown)"
    and "names_ok (tree s)"
    and "f \<in> set files"
    and "path f \<noteq> metadataFilePath cfg"
  shows "\<exists>m. mtimeMs f = Some m \<and>
           length (filter (\<lambda>g. path g = path f) (submitted s')) =
             (case lastUploadTimeMs rt metadata of
                None \<Rightarrow> 0
              | Some w \<Rightarrow> if of_int w \<le> m then 1 else 0)"
proof -
  let ?tasks = "submitted (scan cfg bucket (lastUploadTimeMs rt metadata) files (fresh s))"
  let ?task = "\<lparr>path = metadataFilePath cfg,
                 size_f = length (JSON_stringify rt
                   (new_metadata rt (now_start rd) (now_end rd) metadata)),
                 mtimeMs = None\<rparr>"
  from main_trace [OF assms(1,2,3)]
  have "submitted s' = ?tasks \<or> submitted s' = ?tasks @ [?task]"
    by (auto simp: scan_submitted fresh_fields)
  with assms(6)
  have "filter (\<lambda>g. path g = path f) (submitted s') = filter (\<lambda>g. path g = path f) ?tasks"
    by auto
  with scan_count [OF assms(3,4,5,6), where wm = "lastUploadTimeMs rt metadata" and s = s
      and bucket = bucket]
  show ?thesis by simp
qed

lemma metadataFilePath_deeper:
  "sub \<noteq> [] \<Longrightarrow> source cfg @ sub @ [''.backup-folder.json''] \<noteq> metadataFilePath cfg"
  by (simp add: metadataFilePath_def)

text \<open>
  C10. Only the sidecar at the root of the source is left out. A file the walker finds
  under the name \<^verbatim>\<open>.backup-folder.json\<close> in a subdirectory has a path different from the
  sidecar's, and in the run it is submitted once when its modification time is at or after
  the watermark and not at all otherwise, like any other file. A walked file with the
  sidecar's own path is never submitted.
\<close>

theorem sidecar_name_in_subdirectory_is_ordinary:
  assumes "main cfg rt bucket rd s = (r, s')"
    and "load cfg (fresh s) = Inr metadata"
    and "walk (source cfg) (tree s) = (files, thrown)"
    and "names_ok (tree s)"
    and "f \<in> set files"
    and "path f = source cfg @ sub @ [''.backup-folder.json'']"
    and "sub \<noteq> []"
  shows "path f \<noteq> metadataFilePath cfg \<and>
         (\<exists>m. mtimeMs f = Some m \<and>
            length (filter (\<lambda>g. path g = path f) (submitted s')) =
              (case lastUploadTimeMs rt metadata of
                 None \<Rightarrow> 0
               | Some w \<Rightarrow> if of_int w \<le> m then 1 else 0)) \<and>
         (\<forall>g\<in>set files. path g = metadataFilePath cfg \<longrightarrow> g \<notin> set (submitted s'))"
proof (intro conjI ballI impI)
  from assms(6,7) show ne: "path f \<noteq> metadataFilePath cfg"
    by (simp add: metadataFilePath_deeper)
  from submitted_count [OF assms(1,2,3,4,5) ne]
  show "\<exists>m. mtimeMs f = Some m \<and>
            length (filter (\<lambda>g. path g = path f) (submitted s')) =
              (case lastUploadTimeMs rt metadata of
                 None \<Rightarrow> 0
               | Some w \<Rightarrow> if of_int w \<le> m then 1 else 0)" .
next
  fix g assume g: "g \<in> set files" "path g = metadataFilePath cfg"
  from walk_mtime(1) [of g "source cfg" "tree s"] assms(3) g(1)
  obtain m where m: "mtimeMs g = Some m" by auto
  let ?tasks = "filter (\<lambda>f. path f \<noteq> metadataFilePath cfg \<and>
                  ge_js (mtimeMs f) (lastUploadTimeMs rt metadata)) files"
  let ?task = "\<lparr>path = metadataFilePath cfg,
                 size_f = length (JSON_stringify rt
                   (new_metadata rt (now_start rd) (now_end rd) metadata)),
                 mtimeMs = None\<rparr>"
  from main_trace [OF assms(1,2,3)]
  have "submitted s' = ?tasks \<or> submitted s' = ?tasks @ [?task]" by auto
  moreover from g have "g \<notin> set ?tasks" by simp
  moreover from m have "g \<noteq> ?task" by auto
  ultimately show "g \<notin> set (submitted s')" by auto
qed

theorem sidecar_name_in_subdirectory_is_ordinary_witness:
  "main cfg0 rt0 bucket_ok rd1 disk0 = (Exit 0, disk1) \<and>
   load cfg0 (fresh disk0) = Inr (JObj []) \<and>
   walk (source cfg0) (tree disk0) = (files0, None) \<and>
   names_ok (tree disk0) \<and>
   \<lparr>path = [''home'', ''photos'', ''sub'', ''.backup-folder.json''], size_f = 5,
     mtimeMs = Some 1200\<rparr> \<in> set files0 \<and>
   [''home'', ''photos'', ''sub'', ''.backup-folder.json''] \<noteq> metadataFilePath cfg0 \<and>
   length (filter (\<lambda>g. path g = [''home'', ''photos'', ''sub'', ''.backup-folder.json''])
             (submitted disk1)) = 1"
proof -
  let ?f = "\<lparr>path = [''home'', ''photos'', ''sub'', ''.backup-folder.json''], size_f = 5,
              mtimeMs = Some 1200\<rparr>"
  have mem: "?f \<in> set files0" by (simp add: files0_def)
  have p: "path ?f = source cfg0 @ [''sub''] @ [''.backup-folder.json'']"
    by (simp add: cfg0_def)
  have ne: "[''sub''] \<noteq> []" by simp
  from sidecar_name_in_subdirectory_is_ordinary
         [OF run1 sample_loads(1) sample_walks(1) sample_walks(4) mem p ne]
    run1 sample_loads(1) sample_walks(1) sample_walks(4) mem
  show ?thesis by (simp add: watermark_of_no_metadata)
qed


section \<open>The sidecar in a run\<close>

lemma scan_step_skips_sidecar:
  fixes f :: fileobj
  shows "path f = metadataFilePath cfg \<Longrightarrow> scan_step cfg bucket wm f t = t"
  by (simp add: scan_step_def)

lemma load_fails_events:
  "load cfg s = Inl sx \<Longrightarrow> events sx = events s \<and> submitted sx = submitted s"
  by (auto simp: load_def load_catch_def logError_def console_log_def
      split: sidecar_file.splits sum.splits if_splits)

text \<open>
  C5. A file of the walk with the path of the sidecar leaves the state of the scan as it
  is, whatever its modification time and the watermark, so that the scan submits no task
  with that path. A run that ends while loading the sidecar submits and writes nothing. In
  every other run the submissions and the writing of the sidecar happen in this order:
  first the submissions of the scan; then, unless the walk throws or the writing fails,
  the writing of the new metadata (left out by a print-only run) and after it the
  submission of the sidecar, which is the last event. The sidecar holds the new metadata
  exactly when it has been written.
\<close>

theorem sidecar_left_out_of_scan_and_submitted_last:
  fixes s :: "'st state"
  shows "(\<forall>(f :: fileobj) wm (t :: 'st state). path f = metadataFilePath cfg \<longrightarrow>
            scan_step cfg bucket wm f t = t) \<and>
         (load cfg (fresh s) = Inl sx \<longrightarrow> events (snd (main cfg rt bucket rd s)) = []) \<and>
         (load cfg (fresh s) = Inr metadata \<and> walk (source cfg) (tree s) = (files, thrown) \<longrightarrow>
            (\<forall>g\<in>set (submitted (scan cfg bucket (lastUploadTimeMs rt metadata) files (fresh s))).
               path g \<noteq> metadataFilePath cfg) \<and>
            events (snd (main cfg rt bucket rd s)) =
              map Submitted
                (submitted (scan cfg bucket (lastUploadTimeMs rt metadata) files (fresh s))) @
              (if thrown = None \<and> (onlyPrint cfg \<or> writeFile_fails s = None)
               then (if onlyPrint cfg then []
                     else [Wrote (new_metadata rt (now_start rd) (now_end rd) metadata)]) @
                    [Submitted \<lparr>path = metadataFilePath cfg,
                       size_f = length (JSON_stringify rt
                         (new_metadata rt (now_start rd) (now_end rd) metadata)),
                       mtimeMs = None\<rparr>]
               else []) \<and>
            sidecar (snd (main cfg rt bucket rd s)) =
              (if thrown = None \<and> \<not> onlyPrint cfg \<and> writeFile_fails s = None
               then Parses (new_metadata rt (now_start rd) (now_end rd) metadata)
               else sidecar s))"
proof (intro conjI impI allI)
  fix f :: fileobj and wm and t :: "'st state"
  assume "path f = metadataFilePath cfg"
  then show "scan_step cfg bucket wm f t = t" by (rule scan_step_skips_sidecar)
next
  assume l: "load cfg (fresh s) = Inl sx"
  from load_fails_events [OF l] main_load_fails [OF l, of rt bucket rd]
  show "events (snd (main cfg rt bucket rd s)) = []" by (simp add: fresh_fields)
next
  assume "load cfg (fresh s) = Inr metadata \<and> walk (source cfg) (tree s) = (files, thrown)"
  show "\<forall>g\<in>set (submitted (scan cfg bucket (lastUploadTimeMs rt metadata) files (fresh s))).
          path g \<noteq> metadataFilePath cfg"
    by (simp add: scan_submitted fresh_fields)
next
  assume a: "load cfg (fresh s) = Inr metadata \<and> walk (source cfg) (tree s) = (files, thrown)"
  then have l: "load cfg (fresh s) = Inr metadata"
    and w: "walk (source cfg) (tree s) = (files, thrown)" by simp_all
  from main_result(3) [OF l w, of rt bucket rd]
  show "events (snd (main cfg rt bucket rd s)) =
          map Submitted
            (submitted (scan cfg bucket (lastUploadTimeMs rt metadata) files (fresh s))) @
          (if thrown = None \<and> (onlyPrint cfg \<or> writeFile_fails s = None)
           then (if onlyPrint cfg then []
                 else [Wrote (new_metadata rt (now_start rd) (now_end rd) metadata)]) @
                [Submitted \<lparr>path = metadataFilePath cfg,
                   size_f = length (JSON_stringify rt
                     (new_metadata rt (now_start rd) (now_end rd) metadata)),
                   mtimeMs = None\<rparr>]
           else [])"
    by (simp add: scan_submitted fresh_fields)
next
  assume a: "load cfg (fresh s) = Inr metadata \<and> walk (source cfg) (tree s) = (files, thrown)"
  then have l: "load cfg (fresh s) = Inr metadata"
    and w: "walk (source cfg) (tree s) = (files, thrown)" by simp_all
  from main_result(4) [OF l w, of rt bucket rd]
  show "sidecar (snd (main cfg rt bucket rd s)) =
          (if thrown = None \<and> \<not> onlyPrint cfg \<and> writeFile_fails s = None
           then Parses (new_metadata rt (now_start rd) (now_end rd) metadata)
           else sidecar s)" .
qed

theorem sidecar_left_out_of_scan_and_submitted_last_witness:
  "load cfg0 (fresh disk_listed) = Inr meta1 \<and>
   walk (source cfg0) (tree disk_listed) = (files1, None) \<and>
   hd files1 = \<lparr>path = metadataFilePath cfg0, size_f = 2, mtimeMs = Some 2100\<rparr> \<and>
   lastUploadTimeMs rt0 meta1 = Some 1000 \<and>
   \<not> onlyPrint cfg0 \<and> writeFile_fails disk_listed = None \<and>
   main cfg0 rt0 bucket_ok rd2 disk_listed = (Exit 0, disk_listed2) \<and>
   events disk_listed2 =
     map Submitted (submitted (scan cfg0 bucket_ok (Some 1000) files1 (fresh disk_listed))) @
     [Wrote (new_metadata rt0 (now_start rd2) (now_end rd2) meta1),
      Submitted \<lparr>path = metadataFilePath cfg0,
        size_f = length (JSON_stringify rt0 (new_metadata rt0 (now_start rd2) (now_end rd2) meta1)),
        mtimeMs = None\<rparr>] \<and>
   events disk_listed2 = map Submitted (tl files0) @ [Wrote meta2, Submitted sidecar_task0] \<and>
   sidecar disk_listed2 = Parses meta2 \<and>
   new_metadata rt0 (now_start rd2) (now_end rd2) meta1 = meta2"
proof -
  have h: "hd files1 = \<lparr>path = metadataFilePath cfg0, size_f = 2, mtimeMs = Some 2100\<rparr>"
    by (simp add: files1_def metadataFilePath_def cfg0_def)
  have wf: "writeFile_fails disk_listed = None"
    by (simp add: disk_listed_def disk0_def)
  have ev: "events disk_listed2 = map Submitted (tl files0) @ [Wrote meta2, Submitted sidecar_task0]"
    "sidecar disk_listed2 = Parses meta2"
    by (simp_all add: disk_listed2_def)
  have nm: "new_metadata rt0 (now_start rd2) (now_end rd2) meta1 = meta2"
    by (simp add: new_metadata_def rt0_def iso_table_def rd2_def meta1_def meta2_def)
  from sidecar_left_out_of_scan_and_submitted_last
         [where s = disk_listed and cfg = cfg0 and rt = rt0 and bucket = bucket_ok
            and rd = rd2 and metadata = meta1 and files = files1 and thrown = None]
    sample_loads(4) sample_walks(5) sample_config(1) wf run_listed sample_watermarks(1)
  have "events disk_listed2 =
     map Submitted (submitted (scan cfg0 bucket_ok (Some 1000) files1 (fresh disk_listed))) @
     [Wrote (new_metadata rt0 (now_start rd2) (now_end rd2) meta1),
      Submitted \<lparr>path = metadataFilePath cfg0,
        size_f = length (JSON_stringify rt0 (new_metadata rt0 (now_start rd2) (now_end rd2) meta1)),
        mtimeMs = None\<rparr>]"
    by simp
  with h wf ev nm sample_loads(4) sample_walks(5) sample_config(1) run_listed
    sample_watermarks(1)
  show ?thesis by blast
qed

section \<open>Loading the sidecar\<close>

lemma load_invalid:
  assumes "sidecar s = Parse_fails msg \<or>
           (sidecar s = Parses j \<and> (j = JNull \<or> get_prop j ''uploadStartTime'' = Inr None))"
  shows "\<exists>sx. load cfg s = Inl sx \<and> submitted sx = submitted s \<and> puts sx = puts s \<and>
           store sx = store s \<and> sidecar sx = sidecar s"
  using assms
  by (auto simp: load_def load_catch_def logError_def console_log_def TypeError_null_def)

lemma upload_no_load_line:
  assumes "Cant_read_metadata p \<notin> set (out s) \<and> Invalid_metadata p \<notin> set (out s)"
  shows "Cant_read_metadata p \<notin> set (out (upload cfg bucket f s)) \<and>
         Invalid_metadata p \<notin> set (out (upload cfg bucket f s))"
proof -
  let ?s1 = "s\<lparr>submitted := submitted s @ [f], events := events s @ [Submitted f]\<rparr>"
  let ?fn = "storageBucket_upload bucket (path f)
               (destinationDir cfg @ drop (length (source cfg)) (path f))"
  have keep: "out (final (withRetries ?fn None ?s1)) = out ?s1"
    by (rule withRetries_keeps, simp add: storageBucket_upload_def split: prod.splits)
  from assms keep show ?thesis
    by (auto simp: upload_def upload_task_def Let_def console_log_def
        split: if_splits sum.splits)
qed

lemma scan_step_no_load_line:
  assumes "Cant_read_metadata p \<notin> set (out s) \<and> Invalid_metadata p \<notin> set (out s)"
  shows "Cant_read_metadata p \<notin> set (out (scan_step cfg bucket lastMs f s)) \<and>
         Invalid_metadata p \<notin> set (out (scan_step cfg bucket lastMs f s))"
proof -
  let ?s1 = "s\<lparr>totalFiles := totalFiles s + 1, totalSize := totalSize s + size_f f\<rparr>"
  from assms have "Cant_read_metadata p \<notin> set (out ?s1) \<and> Invalid_metadata p \<notin> set (out ?s1)"
    by simp
  from upload_no_load_line [OF this, of cfg bucket f] assms show ?thesis
    by (simp add: scan_step_def Let_def console_log_def)
qed

lemma scan_no_load_line:
  assumes "Cant_read_metadata p \<notin> set (out s) \<and> Invalid_metadata p \<notin> set (out s)"
  shows "Cant_read_metadata p \<notin> set (out (scan cfg bucket lastMs files s)) \<and>
         Invalid_metadata p \<notin> set (out (scan cfg bucket lastMs files s))"
  using assms unfolding scan_def
proof (induction files arbitrary: s)
  case Nil
  then show ?case by simp
next
  case (Cons f files)
  from Cons.IH [OF scan_step_no_load_line [OF Cons.prems]] show ?case by simp
qed

lemma commit_no_load_line:
  assumes "Cant_read_metadata p \<notin> set (out s) \<and> Invalid_metadata p \<notin> set (out s)"
  shows "Cant_read_metadata p \<notin> set (out (snd (commit cfg rt bucket rd metadata s))) \<and>
         Invalid_metadata p \<notin> set (out (snd (commit cfg rt bucket rd metadata s)))"
proof (cases "\<not> onlyPrint cfg \<and> writeFile_fails s \<noteq> None")
  case True
  with assms show ?thesis
    by (auto simp: commit_def Let_def writeFile_def logError_def console_log_def)
next
  case False
  let ?m = "new_metadata rt (now_start rd) (now_end rd) metadata"
  let ?s1 = "if onlyPrint cfg then s else s\<lparr>sidecar := Parses ?m, events := events s @ [Wrote ?m]\<rparr>"
  let ?s2 = "?s1\<lparr>totalFiles := totalFiles ?s1 + 1,
                totalSize := totalSize ?s1 + length (JSON_stringify rt ?m)\<rparr>"
  from assms have "Cant_read_metadata p \<notin> set (out ?s2) \<and> Invalid_metadata p \<notin> set (out ?s2)"
    by simp
  from upload_no_load_line [OF this, of cfg bucket
      "\<lparr>path = metadataFilePath cfg, size_f = length (JSON_stringify rt ?m), mtimeMs = None\<rparr>"]
    False
  show ?thesis
    by (auto simp: commit_def Let_def writeFile_def console_log_def waitIdle_def)
qed

lemma main_no_load_line:
  assumes "load cfg (fresh s) = Inr metadata"
  shows "Cant_read_metadata p \<notin> set (out (snd (main cfg rt bucket rd s))) \<and>
         Invalid_metadata p \<notin> set (out (snd (main cfg rt bucket rd s)))"
proof -
  obtain files thrown where w: "walk (source cfg) (tree s) = (files, thrown)"
    by (cases "walk (source cfg) (tree s)")
  let ?s1 = "scan cfg bucket (lastUploadTimeMs rt metadata) files (fresh s)"
  have f: "Cant_read_metadata p \<notin> set (out (fresh s)) \<and> Invalid_metadata p \<notin> set (out (fresh s))"
    by (simp add: fresh_fields)
  note s1 = scan_no_load_line [OF f, of cfg bucket "lastUploadTimeMs rt metadata" files]
  show ?thesis
  proof (cases thrown)
    case (Some e)
    with w have w': "walk (source cfg) (tree s) = (files, Some e)" by simp
    from s1 show ?thesis
      by (simp add: main_scan_fails [OF assms w'] logError_def console_log_def)
  next
    case None
    with w have w': "walk (source cfg) (tree s) = (files, None)" by simp
    let ?s3 = "if 1 \<le> queue_size rd
               then console_log All_uploaded (console_log Waiting ?s1)
               else ?s1"
    from s1 have "Cant_read_metadata p \<notin> set (out ?s3) \<and> Invalid_metadata p \<notin> set (out ?s3)"
      by (simp add: console_log_def)
    then show ?thesis
      unfolding main_commits [OF assms w'] by (rule commit_no_load_line)
  qed
qed

text \<open>
  C6. When there is no sidecar, loading gives the empty metadata, whose watermark is the
  epoch, and the run goes on as a first run: it submits every walked file, other than the
  sidecar, modified at or after the epoch, then writes and submits the sidecar, and ends
  with exit code 0 unless the walk throws or the writing fails; neither line of a sidecar
  that cannot be used is printed. When the sidecar's text is not JSON, or is JSON without
  the field \<^verbatim>\<open>uploadStartTime\<close>, the run ends with exit code 1 before it has submitted a task
  or called the bucket, and the sidecar is as it was.
\<close>

theorem sidecar_absent_or_invalid:
  "(sidecar s = Read_fails e \<and> code e = Some ''ENOENT'' \<and>
    walk (source cfg) (tree s) = (files, thrown) \<longrightarrow>
      load cfg (fresh s) = Inr (JObj []) \<and> lastUploadTimeMs rt (JObj []) = Some 0 \<and>
      fst (main cfg rt bucket rd s) =
        (if thrown = None \<and> (onlyPrint cfg \<or> writeFile_fails s = None)
         then Exit 0 else Exit 1) \<and>
      submitted (snd (main cfg rt bucket rd s)) =
        filter (\<lambda>f. path f \<noteq> metadataFilePath cfg \<and> ge_js (mtimeMs f) (Some 0)) files @
        (if thrown = None \<and> (onlyPrint cfg \<or> writeFile_fails s = None)
         then [\<lparr>path = metadataFilePath cfg,
                size_f = length (JSON_stringify rt
                  (new_metadata rt (now_start rd) (now_end rd) (JObj []))),
                mtimeMs = None\<rparr>]
         else []) \<and>
      sidecar (snd (main cfg rt bucket rd s)) =
        (if thrown = None \<and> \<not> onlyPrint cfg \<and> writeFile_fails s = None
         then Parses (new_metadata rt (now_start rd) (now_end rd) (JObj []))
         else sidecar s) \<and>
      Cant_read_metadata (metadataFilePath cfg) \<notin> set (out (snd (main cfg rt bucket rd s))) \<and>
      Invalid_metadata (metadataFilePath cfg) \<notin> set (out (snd (main cfg rt bucket rd s)))) \<and>
   (sidecar s = Parse_fails msg \<or>
    (sidecar s = Parses j \<and> (j = JNull \<or> get_prop j ''uploadStartTime'' = Inr None)) \<longrightarrow>
      fst (main cfg rt bucket rd s) = Exit 1 \<and>
      submitted (snd (main cfg rt bucket rd s)) = [] \<and>
      puts (snd (main cfg rt bucket rd s)) = [] \<and>
      store (snd (main cfg rt bucket rd s)) = store s \<and>
      sidecar (snd (main cfg rt bucket rd s)) = sidecar s)"
proof (rule conjI; rule impI)
  assume a: "sidecar s = Read_fails e \<and> code e = Some ''ENOENT'' \<and>
    walk (source cfg) (tree s) = (files, thrown)"
  then have l: "load cfg (fresh s) = Inr (JObj [])"
    by (simp add: load_absent fresh_fields)
  from a have w: "walk (source cfg) (tree s) = (files, thrown)" by simp
  have wm: "lastUploadTimeMs rt (JObj []) = Some 0"
    by (rule watermark_of_no_metadata)
  note r = main_result [OF l w, of rt bucket rd]
  note n = main_no_load_line [OF l, of "metadataFilePath cfg" rt bucket rd]
  from l wm r(1) r(2) r(4) n
  show "load cfg (fresh s) = Inr (JObj []) \<and> lastUploadTimeMs rt (JObj []) = Some 0 \<and>
      fst (main cfg rt bucket rd s) =
        (if thrown = None \<and> (onlyPrint cfg \<or> writeFile_fails s = None)
         then Exit 0 else Exit 1) \<and>
      submitted (snd (main cfg rt bucket rd s)) =
        filter (\<lambda>f. path f \<noteq> metadataFilePath cfg \<and> ge_js (mtimeMs f) (Some 0)) files @
        (if thrown = None \<and> (onlyPrint cfg \<or> writeFile_fails s = None)
         then [\<lparr>path = metadataFilePath cfg,
                size_f = length (JSON_stringify rt
                  (new_metadata rt (now_start rd) (now_end rd) (JObj []))),
                mtimeMs = None\<rparr>]
         else []) \<and>
      sidecar (snd (main cfg rt bucket rd s)) =
        (if thrown = None \<and> \<not> onlyPrint cfg \<and> writeFile_fails s = None
         then Parses (new_metadata rt (now_start rd) (now_end rd) (JObj []))
         else sidecar s) \<and>
      Cant_read_metadata (metadataFilePath cfg) \<notin> set (out (snd (main cfg rt bucket rd s))) \<and>
      Invalid_metadata (metadataFilePath cfg) \<notin> set (out (snd (main cfg rt bucket rd s)))"
    by (simp only: wm) simp
next
  assume a: "sidecar s = Parse_fails msg \<or>
    (sidecar s = Parses j \<and> (j = JNull \<or> get_prop j ''uploadStartTime'' = Inr None))"
  then have "sidecar (fresh s) = Parse_fails msg \<or>
    (sidecar (fresh s) = Parses j \<and> (j = JNull \<or> get_prop j ''uploadStartTime'' = Inr None))"
    by (simp add: fresh_fields)
  from load_invalid [OF this, of cfg]
  obtain sx where sx: "load cfg (fresh s) = Inl sx" "submitted sx = []" "puts sx = []"
    "store sx = store s" "sidecar sx = sidecar s"
    by (auto simp: fresh_fields)
  from main_load_fails [OF sx(1), of rt bucket rd]
  have m: "main cfg rt bucket rd s = (Exit 1, sx)" .
  from m sx show "fst (main cfg rt bucket rd s) = Exit 1 \<and>
      submitted (snd (main cfg rt bucket rd s)) = [] \<and>
      puts (snd (main cfg rt bucket rd s)) = [] \<and>
      store (snd (main cfg rt bucket rd s)) = store s \<and>
      sidecar (snd (main cfg rt bucket rd s)) = sidecar s" by simp
qed

theorem sidecar_absent_or_invalid_witness:
  "sidecar disk0 = Read_fails ENOENT \<and> code ENOENT = Some ''ENOENT'' \<and>
   walk (source cfg0) (tree disk0) = (files0, None) \<and>
   \<not> onlyPrint cfg0 \<and> writeFile_fails disk0 = None \<and>
   load cfg0 (fresh disk0) = Inr (JObj []) \<and>
   main cfg0 rt0 bucket_ok rd1 disk0 = (Exit 0, disk1) \<and>
   submitted disk1 =
     filter (\<lambda>f. path f \<noteq> metadataFilePath cfg0 \<and> ge_js (mtimeMs f) (Some 0)) files0 @
     [\<lparr>path = metadataFilePath cfg0,
       size_f = length (JSON_stringify rt0
         (new_metadata rt0 (now_start rd1) (now_end rd1) (JObj []))),
       mtimeMs = None\<rparr>] \<and>
   sidecar disk1 = Parses (new_metadata rt0 (now_start rd1) (now_end rd1) (JObj [])) \<and>
   Cant_read_metadata (metadataFilePath cfg0) \<notin> set (out disk1) \<and>
   fst (main cfg0 rt0 bucket_ok rd1
          (disk0\<lparr>sidecar := Parse_fails ''Unexpected end of JSON input''\<rparr>)) = Exit 1 \<and>
   puts (snd (main cfg0 rt0 bucket_ok rd1
          (disk0\<lparr>sidecar := Parse_fails ''Unexpected end of JSON input''\<rparr>))) = [] \<and>
   fst (main cfg0 rt0 bucket_ok rd1
          (disk0\<lparr>sidecar := Parses (JObj [(''uploadEndTime'',
             JStr ''1970-01-01T00:00:02.000Z'')])\<rparr>)) = Exit 1 \<and>
   puts (snd (main cfg0 rt0 bucket_ok rd1
          (disk0\<lparr>sidecar := Parses (JObj [(''uploadEndTime'',
             JStr ''1970-01-01T00:00:02.000Z'')])\<rparr>))) = []"
proof -
  have d: "sidecar disk0 = Read_fails ENOENT" "code ENOENT = Some ''ENOENT''"
    "writeFile_fails disk0 = None"
    by (simp_all add: disk0_def ENOENT_def)
  from sidecar_absent_or_invalid
         [where s = disk0 and e = ENOENT and cfg = cfg0 and rt = rt0 and bucket = bucket_ok
            and rd = rd1 and files = files0 and thrown = None]
    d sample_walks(1) sample_config(1) run1
  have a: "load cfg0 (fresh disk0) = Inr (JObj []) \<and>
   submitted disk1 =
     filter (\<lambda>f. path f \<noteq> metadataFilePath cfg0 \<and> ge_js (mtimeMs f) (Some 0)) files0 @
     [\<lparr>path = metadataFilePath cfg0,
       size_f = length (JSON_stringify rt0
         (new_metadata rt0 (now_start rd1) (now_end rd1) (JObj []))),
       mtimeMs = None\<rparr>] \<and>
   sidecar disk1 = Parses (new_metadata rt0 (now_start rd1) (now_end rd1) (JObj [])) \<and>
   Cant_read_metadata (metadataFilePath cfg0) \<notin> set (out disk1)"
    by simp
  from sidecar_absent_or_invalid
          [where s = "disk0\<lparr>sidecar := Parse_fails ''Unexpected end of JSON input''\<rparr>"
             and msg = "''Unexpected end of JSON input''" and cfg = cfg0 and rt = rt0
             and bucket = bucket_ok and rd = rd1]
  have b: "fst (main cfg0 rt0 bucket_ok rd1
          (disk0\<lparr>sidecar := Parse_fails ''Unexpected end of JSON input''\<rparr>)) = Exit 1 \<and>
   puts (snd (main cfg0 rt0 bucket_ok rd1
          (disk0\<lparr>sidecar := Parse_fails ''Unexpected end of JSON input''\<rparr>))) = []"
    by (simp add: disk0_def)
  from sidecar_absent_or_invalid
          [where s = "disk0\<lparr>sidecar := Parses (JObj [(''uploadEndTime'',
                        JStr ''1970-01-01T00:00:02.000Z'')])\<rparr>"
             and j = "JObj [(''uploadEndTime'', JStr ''1970-01-01T00:00:02.000Z'')]"
             and cfg = cfg0 and rt = rt0 and bucket = bucket_ok and rd = rd1]
  have c: "fst (main cfg0 rt0 bucket_ok rd1
          (disk0\<lparr>sidecar := Parses (JObj [(''uploadEndTime'',
             JStr ''1970-01-01T00:00:02.000Z'')])\<rparr>)) = Exit 1 \<and>
   puts (snd (main cfg0 rt0 bucket_ok rd1
          (disk0\<lparr>sidecar := Parses (JObj [(''uploadEndTime'',
             JStr ''1970-01-01T00:00:02.000Z'')])\<rparr>))) = []"
    by (simp add: disk0_def)
  from a b c d sample_walks(1) sample_config(1) run1 show ?thesis by blast
qed

section \<open>The metadata a run saves\<close>

lemma load_gives_object: "load cfg s = Inr metadata \<Longrightarrow> \<exists>kvs. metadata = JObj kvs"
proof (cases "sidecar s")
  case (Read_fails e)
  assume "load cfg s = Inr metadata"
  with Read_fails show ?thesis
    by (auto simp: load_def load_catch_def split: if_splits)
next
  case (Parse_fails msg)
  assume "load cfg s = Inr metadata"
  with Parse_fails show ?thesis
    by (auto simp: load_def load_catch_def split: if_splits)
next
  case (Parses j)
  assume "load cfg s = Inr metadata"
  with Parses show ?thesis
    by (cases j) (auto simp: load_def load_catch_def TypeError_null_def split: if_splits)
qed

lemma exit_0_saves_metadata:
  assumes "main cfg rt bucket rd s = (Exit 0, s')" and "\<not> onlyPrint cfg"
    and "load cfg (fresh s) = Inr metadata"
  shows "sidecar s' = Parses (new_metadata rt (now_start rd) (now_end rd) metadata)"
    and "tree s' = tree s"
proof -
  obtain files thrown where w: "walk (source cfg) (tree s) = (files, thrown)"
    by (cases "walk (source cfg) (tree s)")
  from main_trace [OF assms(1,3) w] assms(2)
  show "sidecar s' = Parses (new_metadata rt (now_start rd) (now_end rd) metadata)"
    and "tree s' = tree s"
    by simp_all
qed

lemma watermark_of_new_metadata:
  assumes "toISOString rt t \<noteq> []" and "Date_parse rt (toISOString rt t) = Some t"
  shows "lastUploadTimeMs rt (new_metadata rt t t' metadata) = Some t"
  using assms by (simp add: lastUploadTimeMs_def new_metadata_def)

text \<open>
  C2, as the program has it. A run that is not print-only and ends with exit code 0 has
  saved, as \<^verbatim>\<open>uploadStartTime\<close>, the ISO string of the clock reading it took before the scan,
  and the next run reads that instant back as its watermark. The new watermark is at or
  after the previous one exactly when that clock reading is.
\<close>

theorem saved_watermark_is_start_of_run:
  assumes "main cfg rt bucket rd s = (Exit 0, s')"
    and "\<not> onlyPrint cfg"
    and "load cfg (fresh s) = Inr metadata"
    and "toISOString rt (now_start rd) \<noteq> []"
    and "Date_parse rt (toISOString rt (now_start rd)) = Some (now_start rd)"
  shows "\<exists>m. sidecar s' = Parses m \<and>
           get_prop m ''uploadStartTime'' = Inr (Some (JStr (toISOString rt (now_start rd)))) \<and>
           lastUploadTimeMs rt m = Some (now_start rd) \<and>
           (\<forall>w. lastUploadTimeMs rt metadata = Some w \<longrightarrow>
              (\<exists>w'. lastUploadTimeMs rt m = Some w' \<and> (w \<le> w') = (w \<le> now_start rd)))"
proof -
  let ?m = "new_metadata rt (now_start rd) (now_end rd) metadata"
  have "sidecar s' = Parses ?m"
    by (rule exit_0_saves_metadata(1) [OF assms(1,2,3)])
  moreover have "get_prop ?m ''uploadStartTime'' =
      Inr (Some (JStr (toISOString rt (now_start rd))))"
    by (simp add: new_metadata_def)
  moreover have "lastUploadTimeMs rt ?m = Some (now_start rd)"
    by (rule watermark_of_new_metadata [OF assms(4,5)])
  ultimately show ?thesis by simp
qed

theorem saved_watermark_is_start_of_run_witness:
  "main cfg0 rt0 bucket_ok rd2 disk1 = (Exit 0, disk2) \<and> \<not> onlyPrint cfg0 \<and>
   load cfg0 (fresh disk1) = Inr meta1 \<and>
   toISOString rt0 (now_start rd2) \<noteq> [] \<and>
   Date_parse rt0 (toISOString rt0 (now_start rd2)) = Some (now_start rd2) \<and>
   (\<exists>m. sidecar disk2 = Parses m \<and> lastUploadTimeMs rt0 m = Some (now_start rd2)) \<and>
   lastUploadTimeMs rt0 meta1 = Some 1000 \<and> now_start rd2 = 3000"
proof -
  have ne: "toISOString rt0 (now_start rd2) \<noteq> []" by (simp add: sample_clock)
  from saved_watermark_is_start_of_run
         [OF run2 sample_config(1) sample_loads(2) ne sample_clock(4)]
  have "\<exists>m. sidecar disk2 = Parses m \<and> lastUploadTimeMs rt0 m = Some (now_start rd2)"
    by blast
  moreover have "now_start rd2 = 3000" by (simp add: rd2_def)
  ultimately show ?thesis
    using run2 sample_config(1) sample_loads(2) ne sample_clock(4) sample_watermarks(1)
    by blast
qed

text \<open>
  The claim says the new watermark is never before the previous one. The second sample
  run has left the watermark 3000 ms; a run whose clock reads 1000 ms at its start (the
  clock has been set back) ends with exit code 0 and leaves the watermark 1000 ms.
\<close>

theorem clock_set_back_lowers_watermark:
  "load cfg0 (fresh disk2) = Inr meta2 \<and> lastUploadTimeMs rt0 meta2 = Some 3000 \<and>
   now_start rd1 = 1000 \<and>
   main cfg0 rt0 bucket_ok rd1 disk2 = (Exit 0, disk_back) \<and>
   sidecar disk_back = Parses meta_back \<and> lastUploadTimeMs rt0 meta_back = Some 1000"
proof -
  have "now_start rd1 = 1000" "sidecar disk_back = Parses meta_back"
    by (simp_all add: rd1_def disk_back_def)
  with sample_loads(3) sample_watermarks(2,4) run_back show ?thesis by blast
qed

lemma delete_prop_object:
  "get_prop (delete_prop (JObj kvs) k) k = Inr None"
  "k' \<noteq> k \<Longrightarrow> get_prop (delete_prop (JObj kvs) k) k' = get_prop (JObj kvs) k'"
  by (induction kvs) auto

text \<open>
  C7, as the program has it. A run that is not print-only and ends with exit code 0 saves
  an object of three fields: its start, its end, and under \<^verbatim>\<open>lastMetaData\<close> the metadata it
  loaded with that object's own \<^verbatim>\<open>lastMetaData\<close> deleted and its other fields as they were.
  The sidecar so holds the run and the one before it, and nothing older.
\<close>

theorem saved_metadata_nests_one_previous_run:
  assumes "main cfg rt bucket rd s = (Exit 0, s')"
    and "\<not> onlyPrint cfg"
    and "load cfg (fresh s) = Inr metadata"
  shows "sidecar s' =
           Parses (JObj [(''uploadStartTime'', JStr (toISOString rt (now_start rd))),
                         (''uploadEndTime'', JStr (toISOString rt (now_end rd))),
                         (''lastMetaData'', delete_prop metadata ''lastMetaData'')]) \<and>
         get_prop (delete_prop metadata ''lastMetaData'') ''lastMetaData'' = Inr None \<and>
         (\<forall>k. k \<noteq> ''lastMetaData'' \<longrightarrow>
            get_prop (delete_prop metadata ''lastMetaData'') k = get_prop metadata k)"
proof -
  from load_gives_object [OF assms(3)] obtain kvs where "metadata = JObj kvs" by blast
  with exit_0_saves_metadata(1) [OF assms] show ?thesis
    by (simp add: new_metadata_def delete_prop_object del: delete_prop.simps)
qed

theorem saved_metadata_nests_one_previous_run_witness:
  "main cfg0 rt0 bucket_ok rd3 disk2 = (Exit 0, disk3) \<and> \<not> onlyPrint cfg0 \<and>
   load cfg0 (fresh disk2) = Inr meta2 \<and>
   sidecar disk3 =
     Parses (JObj [(''uploadStartTime'', JStr (toISOString rt0 (now_start rd3))),
                   (''uploadEndTime'', JStr (toISOString rt0 (now_end rd3))),
                   (''lastMetaData'', delete_prop meta2 ''lastMetaData'')]) \<and>
   get_prop (delete_prop meta2 ''lastMetaData'') ''lastMetaData'' = Inr None"
  using saved_metadata_nests_one_previous_run [OF run3 sample_config(1) sample_loads(3)]
    run3 sample_config(1) sample_loads(3)
  by blast

text \<open>
  The claim says that after \<open>n\<close> runs the sidecar holds the history of all \<open>n\<close> runs. After
  the three sample runs, each ending with exit code 0, the sidecar holds the third run and
  the second; the first run (from 1000 to 2000 ms) is not in it.
\<close>

theorem third_run_drops_first_run:
  "main cfg0 rt0 bucket_ok rd1 disk0 = (Exit 0, disk1) \<and>
   main cfg0 rt0 bucket_ok rd2 disk1 = (Exit 0, disk2) \<and>
   main cfg0 rt0 bucket_ok rd3 disk2 = (Exit 0, disk3) \<and>
   sidecar disk1 =
     Parses (JObj [(''uploadStartTime'', JStr ''1970-01-01T00:00:01.000Z''),
                   (''uploadEndTime'', JStr ''1970-01-01T00:00:02.000Z''),
                   (''lastMetaData'', JObj [])]) \<and>
   sidecar disk3 =
     Parses (JObj [(''uploadStartTime'', JStr ''1970-01-01T00:00:05.000Z''),
                   (''uploadEndTime'', JStr ''1970-01-01T00:00:06.000Z''),
                   (''lastMetaData'',
                    JObj [(''uploadStartTime'', JStr ''1970-01-01T00:00:03.000Z''),
                          (''uploadEndTime'', JStr ''1970-01-01T00:00:04.000Z'')])])"
proof -
  have "sidecar disk1 =
     Parses (JObj [(''uploadStartTime'', JStr ''1970-01-01T00:00:01.000Z''),
                   (''uploadEndTime'', JStr ''1970-01-01T00:00:02.000Z''),
                   (''lastMetaData'', JObj [])])"
    by (simp add: disk1_def meta1_def)
  moreover have "sidecar disk3 =
     Parses (JObj [(''uploadStartTime'', JStr ''1970-01-01T00:00:05.000Z''),
                   (''uploadEndTime'', JStr ''1970-01-01T00:00:06.000Z''),
                   (''lastMetaData'',
                    JObj [(''uploadStartTime'', JStr ''1970-01-01T00:00:03.000Z''),
                          (''uploadEndTime'', JStr ''1970-01-01T00:00:04.000Z'')])])"
    by (simp add: disk3_def meta3_def)
  ultimately show ?thesis using run1 run2 run3 by blast
qed


section \<open>An upload that fails for good\<close>















section \<open>Two runs in a row\<close>

lemma load_new_metadata:
  assumes "sidecar s = Parses (new_metadata rt t t' metadata)" and "toISOString rt t \<noteq> []"
  shows "load cfg s = Inr (new_metadata rt t t' metadata)"
  using assms by (simp add: load_def new_metadata_def)

text \<open>
  C9, as the program has it. After a run that is not print-only and has ended with exit
  code 0, a second run on the same source tree submits, besides the sidecar, exactly the
  files the walker finds whose modification time is at or after the start of the first run,
  and calls the bucket for no other path than those it has submitted. When every file was
  last modified before the first run started, the second run submits no file but the
  sidecar and calls the bucket for nothing else.
\<close>

theorem second_run_submits_files_modified_since_first_start:
  assumes "main cfg rt bucket rd s = (Exit 0, s1)"
    and "\<not> onlyPrint cfg"
    and "toISOString rt (now_start rd) \<noteq> []"
    and "Date_parse rt (toISOString rt (now_start rd)) = Some (now_start rd)"
    and "main cfg rt bucket rd' s1 = (r2, s2)"
    and "walk (source cfg) (tree s1) = (files, thrown)"
  shows "tree s1 = tree s \<and>
         filter (\<lambda>f. path f \<noteq> metadataFilePath cfg) (submitted s2) =
           filter (\<lambda>f. path f \<noteq> metadataFilePath cfg \<and>
                     ge_js (mtimeMs f) (Some (now_start rd))) files \<and>
         fst ` set (puts s2) \<subseteq> path ` set (submitted s2) \<and>
         ((\<forall>f\<in>set files. \<forall>m. mtimeMs f = Some m \<longrightarrow> m < of_int (now_start rd)) \<longrightarrow>
            filter (\<lambda>f. path f \<noteq> metadataFilePath cfg) (submitted s2) = [] \<and>
            fst ` set (puts s2) \<subseteq> {metadataFilePath cfg})"
proof -
  obtain metadata where l1: "load cfg (fresh s) = Inr metadata"
    using assms(1) main_load_fails [of cfg s _ rt bucket rd]
    by (cases "load cfg (fresh s)") auto
  let ?m = "new_metadata rt (now_start rd) (now_end rd) metadata"
  note saved = exit_0_saves_metadata [OF assms(1,2) l1]
  from saved(1) have "sidecar (fresh s1) = Parses ?m" by (simp add: fresh_fields)
  from load_new_metadata [OF this assms(3)] have l2: "load cfg (fresh s1) = Inr ?m" .
  have wm: "lastUploadTimeMs rt ?m = Some (now_start rd)"
    by (rule watermark_of_new_metadata [OF assms(3,4)])
  let ?tasks = "filter (\<lambda>f. path f \<noteq> metadataFilePath cfg \<and>
                  ge_js (mtimeMs f) (Some (now_start rd))) files"
  let ?task = "\<lparr>path = metadataFilePath cfg,
                 size_f = length (JSON_stringify rt
                   (new_metadata rt (now_start rd') (now_end rd') ?m)),
                 mtimeMs = None\<rparr>"
  from main_trace [OF assms(5) l2 assms(6)] wm
  have p: "fst ` set (puts s2) \<subseteq> path ` set (submitted s2)"
    and t: "submitted s2 = ?tasks \<or> submitted s2 = ?tasks @ [?task]"
    by auto
  from t have f: "filter (\<lambda>f. path f \<noteq> metadataFilePath cfg) (submitted s2) = ?tasks"
    by (elim disjE) (simp_all add: conj_commute)
  have e: "filter (\<lambda>f. path f \<noteq> metadataFilePath cfg) (submitted s2) = [] \<and>
           fst ` set (puts s2) \<subseteq> {metadataFilePath cfg}"
    if old: "\<forall>f\<in>set files. \<forall>m. mtimeMs f = Some m \<longrightarrow> m < of_int (now_start rd)"
  proof -
    have "\<not> ge_js (mtimeMs g) (Some (now_start rd))" if "g \<in> set files" for g
      using old that by (cases "mtimeMs g") (auto simp: ge_js_def)
    then have "?tasks = []" by (simp add: filter_empty_conv)
    with t f p show ?thesis by auto
  qed
  from saved(2) f p e show ?thesis by blast
qed

theorem second_run_submits_files_modified_since_first_start_witness:
  "main cfg0 rt0 bucket_ok rd2 disk1 = (Exit 0, disk2) \<and> \<not> onlyPrint cfg0 \<and>
   toISOString rt0 (now_start rd2) \<noteq> [] \<and>
   Date_parse rt0 (toISOString rt0 (now_start rd2)) = Some (now_start rd2) \<and>
   main cfg0 rt0 bucket_ok rd3 disk2 = (Exit 0, disk3) \<and>
   walk (source cfg0) (tree disk2) = (files0, None) \<and>
   map mtimeMs files0 = [Some (- 1), Some 1500, Some 1200, Some (3601 / 2)] \<and>
   now_start rd2 = 3000 \<and>
   filter (\<lambda>f. path f \<noteq> metadataFilePath cfg0) (submitted disk3) = [] \<and>
   fst ` set (puts disk3) \<subseteq> {metadataFilePath cfg0}"
proof -
  have ne: "toISOString rt0 (now_start rd2) \<noteq> []" by (simp add: sample_clock)
  have old: "\<forall>f\<in>set files0. \<forall>m. mtimeMs f = Some m \<longrightarrow> m < of_int (now_start rd2)"
    by (simp add: files0_def rd2_def)
  from second_run_submits_files_modified_since_first_start
         [OF run2 sample_config(1) ne sample_clock(4) run3 sample_walks(3)] old
  have "filter (\<lambda>f. path f \<noteq> metadataFilePath cfg0) (submitted disk3) = [] \<and>
        fst ` set (puts disk3) \<subseteq> {metadataFilePath cfg0}"
    by blast
  moreover have "map mtimeMs files0 = [Some (- 1), Some 1500, Some 1200, Some (3601 / 2)]"
    "now_start rd2 = 3000"
    by (simp_all add: files0_def rd2_def)
  ultimately show ?thesis
    using run2 sample_config(1) ne sample_clock(4) run3 sample_walks(3) by blast
qed

text \<open>
  The claim says the second run uploads no data file when nothing has changed in between.
  The three data files of \<open>disk0\<close> that the first sample run uploads were last modified
  while it was under way, after its start at 1000 ms. The second run, on the same tree,
  uploads the three of them again.
\<close>

theorem second_run_uploads_files_modified_during_first:
  "main cfg0 rt0 bucket_ok rd1 disk0 = (Exit 0, disk1) \<and> tree disk1 = tree disk0 \<and>
   main cfg0 rt0 bucket_ok rd2 disk1 = (Exit 0, disk2) \<and>
   map fst (puts disk2) =
     [[''home'', ''photos'', ''new.txt''], [''home'', ''photos'', ''sub'', ''.backup-folder.json''],
      [''home'', ''photos'', ''sub'', ''b.txt''], [''home'', ''photos'', ''.backup-folder.json'']]"
proof -
  have "tree disk1 = tree disk0" by (simp add: disk1_def)
  moreover have "map fst (puts disk2) =
     [[''home'', ''photos'', ''new.txt''], [''home'', ''photos'', ''sub'', ''.backup-folder.json''],
      [''home'', ''photos'', ''sub'', ''b.txt''], [''home'', ''photos'', ''.backup-folder.json'']]"
    by (simp add: disk2_def disk1_def puts_all_def)
  ultimately show ?thesis using run1 run2 by blast
qed

end
